theory Spec2Isabelle
  imports Main "HOL-Library.Sublist"
begin

section \<open>FireO: the entity core of \<^verbatim>\<open>fireo/models/model.py\<close>\<close>

text \<open>
  The theory embeds the class \<^verbatim>\<open>Model\<close>: change tracking, the conversion between an
  entity and a document dict, key composition, and \<^verbatim>\<open>update\<close> / \<^verbatim>\<open>refresh\<close>.
  The field descriptors, the metaclass registry, \<^verbatim>\<open>fireo.utils\<close> and the manager are
  other modules; they enter as records of functions and data.

  A leading underscore of a Python name is dropped (\<^verbatim>\<open>_field_changed\<close> is
  \<open>field_changed\<close>); the property \<^verbatim>\<open>_id\<close> is the pair \<open>id_get\<close> / \<open>id_set\<close>, the
  attribute \<^verbatim>\<open>_key\<close> is \<open>priv_key\<close>, and \<^verbatim>\<open>__init__\<close> is \<open>init\<close>.
\<close>

subsection \<open>Values, instances and exceptions\<close>

datatype pyval =
    PyNone
  | PyBool bool
  | PyInt int
  | PyStr string
  | PyList "pyval list"
  | PyDict "(string \<times> pyval) list"
  | PyModel "(string \<times> pyval) list"

text \<open>Python truthiness, as \<^verbatim>\<open>if doc_id:\<close> tests it.\<close>

fun truthy :: "pyval \<Rightarrow> bool" where
  "truthy PyNone = False"
| "truthy (PyBool b) = b"
| "truthy (PyInt i) = (i \<noteq> 0)"
| "truthy (PyStr s) = (s \<noteq> [])"
| "truthy (PyList xs) = (xs \<noteq> [])"
| "truthy (PyDict kvs) = (kvs \<noteq> [])"
| "truthy (PyModel kvs) = True"

text \<open>
  An instance. \<open>parent\<close> is the attribute \<^verbatim>\<open>parent\<close> (annotated \<^verbatim>\<open>str\<close> in
  \<^verbatim>\<open>__init__\<close>), \<open>priv_key\<close> is \<^verbatim>\<open>_key\<close> (\<^verbatim>\<open>None\<close> or a string), and \<open>attrs\<close>
  is the instance dictionary for every other name: the declared fields, the identifier
  and the extra fields of a loaded document. The state that the class keeps under
  names of its own (\<open>parent\<close>, \<open>priv_key\<close>, the two sets) stands apart from \<open>attrs\<close>;
  what an assignment to such a name does is said with \<open>store_attr\<close> below.
\<close>

record model =
  parent :: string
  priv_key :: "string option"
  field_changed :: "string set"
  extra_fields :: "string set"
  attrs :: "string \<rightharpoonup> pyval"

datatype exn =
    AttributeError
  | TypeError
  | KeyError
  | IndexError
  | ValueError
  | RecursionError
  | RequiredField
  | InvalidKey
  | AbstractNotInstantiate
  | NotImplementedError "string set"
  | ModelSerializingWrappedError model "string list" exn
  | OtherError string
  | OutsideModel string

text \<open>
  All but the last are exceptions of Python. \<open>OutsideModel n\<close> is none: it ends a run
  that assigns the attribute name \<open>n\<close> of the class's own state or methods, which
  this embedding does not follow (see \<open>store_attr\<close>).
\<close>

subsection \<open>The collaborators: options, field descriptors, registry, manager\<close>

record dump_options =
  ignore_unchanged :: bool
  ignore_default_none :: bool

record load_options =
  lo_model :: model
  lo_stored :: bool
  lo_merge :: bool
  lo_by_column_name :: bool

text \<open>The classes of \<^verbatim>\<open>fireo.fields\<close> that the source tests with \<^verbatim>\<open>isinstance\<close>.\<close>

datatype field_class = IDField | MapField | ListField | NestedModelField | DateTime | OtherField

text \<open>
  A field descriptor, with what the source reads of it. \<open>auto_update\<close> is the truth
  value of \<^verbatim>\<open>raw_attributes.get('auto_update', False)\<close>; \<open>nested_model\<close> is the outcome
  of the call \<^verbatim>\<open>f.nested_model()\<close> and \<open>nested_from_dict\<close> that of
  \<^verbatim>\<open>f.nested_model.from_dict(d)\<close>. \<open>get_value\<close> encodes for storage; its second
  argument is \<open>None\<close> where the source passes no options. \<open>field_value\<close> decodes.
\<close>

record field_desc =
  name :: string
  db_column_name :: string
  cls :: field_class
  include_in_document :: bool
  auto_update :: bool
  nested_model :: "exn + pyval"
  nested_from_dict :: "pyval \<Rightarrow> exn + pyval"
  get_value :: "pyval \<Rightarrow> dump_options option \<Rightarrow> exn + pyval"
  field_value :: "pyval \<Rightarrow> load_options \<Rightarrow> exn + pyval"

text \<open>
  \<^verbatim>\<open>_meta\<close>. \<open>field_list\<close> is the ordered dict of declared fields, in declaration
  order and keyed by each field's \<open>name\<close>; \<open>(id_name, id_field)\<close> is the pair
  \<^verbatim>\<open>_meta.id\<close>. \<open>collection_name\<close> is the class attribute the metaclass fills in
  (a \<^verbatim>\<open>str\<close>, by the class docstring).
\<close>

record model_meta =
  field_list :: "field_desc list"
  id_name :: string
  id_field :: field_desc
  abstract :: bool
  collection_name :: string
  get_field_by_column_name :: "string \<Rightarrow> field_desc option"

text \<open>\<^verbatim>\<open>utils.get_parent_doc\<close> and \<^verbatim>\<open>utils.get_id\<close>, as \<^verbatim>\<open>update\<close> calls them.\<close>

record utils =
  get_parent_doc :: "string \<Rightarrow> string"
  get_id :: "string \<Rightarrow> pyval"

text \<open>
  The manager \<^verbatim>\<open>cls.collection\<close>: \<^verbatim>\<open>_update(self, transaction, batch)\<close> and
  \<^verbatim>\<open>_refresh(self, transaction)\<close>.
\<close>

record manager =
  mgr_update :: "model \<Rightarrow> pyval \<Rightarrow> pyval \<Rightarrow> exn + model"
  mgr_refresh :: "model \<Rightarrow> pyval \<Rightarrow> exn + model"

subsection \<open>Attribute access\<close>

text \<open>\<^verbatim>\<open>set(self._meta.field_list)\<close>: the declared attribute names.\<close>

definition field_names :: "model_meta \<Rightarrow> string set" where
  "field_names m = set (map name (field_list m))"

text \<open>\<^verbatim>\<open>self._meta.field_list[field_name]\<close>.\<close>

definition lookup_field :: "model_meta \<Rightarrow> string \<Rightarrow> field_desc option" where
  "lookup_field m field_name = find (\<lambda>f. name f = field_name) (field_list m)"

text \<open>
  \<^verbatim>\<open>getattr(self, n, None)\<close>: the instance value, else \<^verbatim>\<open>None\<close> (the class-level
  value of a declared field and of \<^verbatim>\<open>id\<close> is \<^verbatim>\<open>None\<close> as well).
\<close>

definition getattr_default :: "model \<Rightarrow> string \<Rightarrow> pyval" where
  "getattr_default self n = (case attrs self n of Some v \<Rightarrow> v | None \<Rightarrow> PyNone)"

text \<open>
  \<^verbatim>\<open>getattr(self, n)\<close>. A declared field that was never assigned reads as the
  class-level \<^verbatim>\<open>None\<close>, as does \<^verbatim>\<open>id\<close>; any other missing name raises.
\<close>

definition getattr :: "model_meta \<Rightarrow> model \<Rightarrow> string \<Rightarrow> exn + pyval" where
  "getattr m self n =
     (case attrs self n of
        Some v \<Rightarrow> Inr v
      | None \<Rightarrow> if n \<in> field_names m \<or> n = ''id'' then Inr PyNone else Inl AttributeError)"

text \<open>\<^verbatim>\<open>'/'.join([parent, collection_name, x])\<close>: a non-string item raises \<^verbatim>\<open>TypeError\<close>.\<close>

definition join_key :: "string \<Rightarrow> string \<Rightarrow> pyval \<Rightarrow> exn + string" where
  "join_key p c x =
     (case x of PyStr s \<Rightarrow> Inr (p @ ''/'' @ c @ ''/'' @ s) | _ \<Rightarrow> Inl TypeError)"

text \<open>\<^verbatim>\<open>if k[0] == '/': return k[1:] else: return k\<close>.\<close>

definition strip_slash :: "string \<Rightarrow> exn + string" where
  "strip_slash k =
     (case k of [] \<Rightarrow> Inl IndexError
      | c # cs \<Rightarrow> if c = CHR ''/'' then Inr cs else Inr k)"

text \<open>\<^verbatim>\<open>_set_key\<close>.\<close>

definition set_key :: "model_meta \<Rightarrow> model \<Rightarrow> pyval \<Rightarrow> exn + model" where
  "set_key m self doc_id =
     (case join_key (parent self) (collection_name m) doc_id of
        Inl x \<Rightarrow> Inl x
      | Inr p \<Rightarrow>
          (case strip_slash p of
             Inl x \<Rightarrow> Inl x
           | Inr k \<Rightarrow> Inr (self\<lparr>priv_key := Some k\<rparr>)))"

text \<open>The properties of \<^verbatim>\<open>Model\<close> that have no setter.\<close>

definition readonly_properties :: "string set" where
  "readonly_properties = {''key'', ''document_path''}"

text \<open>
  The names under which \<^verbatim>\<open>Model\<close> keeps the state of the record above
  (\<^verbatim>\<open>parent\<close>, \<^verbatim>\<open>_key\<close>, \<^verbatim>\<open>_field_changed\<close>, \<^verbatim>\<open>_extra_fields\<close>), the class
  attributes \<^verbatim>\<open>_meta\<close> and \<^verbatim>\<open>collection_name\<close> that it reads through \<^verbatim>\<open>self\<close>, and
  its methods. An instance attribute of such a name replaces the state, or hides the
  class attribute or the method, for every later read.
\<close>

definition shadowing_names :: "string set" where
  "shadowing_names =
     {''parent'', ''_key'', ''_field_changed'', ''_extra_fields'', ''_meta'', ''collection_name'',
      ''from_dict'', ''merge_with_dict'', ''to_dict'', ''to_db_dict'', ''populate_from_doc_dict'',
      ''_get_fields'', ''_set_key'', ''get_firestore_create_time'', ''get_firestore_update_time'',
      ''list_subcollections'', ''save'', ''upsert'', ''update'', ''refresh'', ''_set_orig_attr'',
      ''document_reference'', ''_is_field_unchanged''}"

text \<open>
  An attribute name that is none of these: assigning it stores a value in the
  instance dictionary and does nothing else.
\<close>

definition ordinary_name :: "string \<Rightarrow> bool" where
  "ordinary_name k = (k \<noteq> ''_id'' \<and> k \<notin> readonly_properties \<and> k \<notin> shadowing_names)"

text \<open>
  \<^verbatim>\<open>super().__setattr__(key, value)\<close> for a name other than \<^verbatim>\<open>_id\<close>. On a property
  without a setter it raises \<^verbatim>\<open>AttributeError\<close>. Python stores any other name in the
  instance dictionary; for an ordinary name that is all, and \<open>attrs\<close> follows it. For
  a name of \<open>shadowing_names\<close> the stored value takes the place of state or of a
  method that the record keeps apart from \<open>attrs\<close>, and the record cannot say what
  the later reads yield. Such a run ends there with the marker \<open>OutsideModel\<close>: the
  embedding follows no run past such an assignment, and a statement about a result
  \<open>Inr\<close> is about runs without one.
\<close>

definition store_attr :: "model \<Rightarrow> string \<Rightarrow> pyval \<Rightarrow> exn + model" where
  "store_attr self k v =
     (if k \<in> readonly_properties then Inl AttributeError
      else if k \<in> shadowing_names then Inl (OutsideModel k)
      else Inr (self\<lparr>attrs := (attrs self)(k \<mapsto> v)\<rparr>))"

text \<open>
  \<^verbatim>\<open>__setattr__\<close> for a name other than \<^verbatim>\<open>_id\<close>: a declared name is recorded as
  changed, then the value is stored.
\<close>

definition setattr_plain :: "model_meta \<Rightarrow> model \<Rightarrow> string \<Rightarrow> pyval \<Rightarrow> exn + model" where
  "setattr_plain m self k v =
     store_attr
       (if k \<in> field_names m then self\<lparr>field_changed := insert k (field_changed self)\<rparr> else self)
       k v"

text \<open>
  The setter of the property \<^verbatim>\<open>_id\<close>: it assigns the identifier attribute and, for a
  non-empty id, the key. Were the identifier attribute itself called \<^verbatim>\<open>_id\<close>, the
  setter would call itself without end.
\<close>

definition id_set :: "model_meta \<Rightarrow> model \<Rightarrow> pyval \<Rightarrow> exn + model" where
  "id_set m self doc_id =
     (if id_name m = ''_id'' then Inl RecursionError
      else case setattr_plain m self (id_name m) doc_id of
        Inl x \<Rightarrow> Inl x
      | Inr self1 \<Rightarrow> if truthy doc_id then set_key m self1 doc_id else Inr self1)"

text \<open>
  \<^verbatim>\<open>super().__setattr__(key, value)\<close>: the name \<^verbatim>\<open>_id\<close> is the property with the
  setter above, every other name is left to \<open>store_attr\<close>.
\<close>

definition object_setattr :: "model_meta \<Rightarrow> model \<Rightarrow> string \<Rightarrow> pyval \<Rightarrow> exn + model" where
  "object_setattr m self k v =
     (if k = ''_id'' then id_set m self v else store_attr self k v)"

text \<open>\<^verbatim>\<open>Model.__setattr__\<close>.\<close>

definition setattr :: "model_meta \<Rightarrow> model \<Rightarrow> string \<Rightarrow> pyval \<Rightarrow> exn + model" where
  "setattr m self k v =
     object_setattr m
       (if k \<in> field_names m then self\<lparr>field_changed := insert k (field_changed self)\<rparr> else self)
       k v"

text \<open>\<^verbatim>\<open>_set_orig_attr\<close>.\<close>

definition set_orig_attr :: "model_meta \<Rightarrow> model \<Rightarrow> string \<Rightarrow> pyval \<Rightarrow> exn + model" where
  "set_orig_attr m self k v =
     object_setattr m
       (if k \<noteq> ''_id'' \<and> k \<notin> field_names m
        then self\<lparr>extra_fields := insert k (extra_fields self)\<rparr> else self)
       k v"

subsection \<open>Change tracking\<close>

text \<open>\<^verbatim>\<open>_is_field_unchanged\<close>.\<close>

definition is_field_unchanged :: "model_meta \<Rightarrow> model \<Rightarrow> string \<Rightarrow> exn + bool" where
  "is_field_unchanged m self field_name =
     (if field_name \<in> field_changed self then Inr True
      else case lookup_field m field_name of
        None \<Rightarrow> Inl KeyError
      | Some field \<Rightarrow>
          (case getattr m self field_name of
             Inl x \<Rightarrow> Inl x
           | Inr v \<Rightarrow>
               if v \<noteq> PyNone \<and> cls field \<in> {MapField, ListField, NestedModelField} then Inr True
               else if cls field = DateTime \<and> auto_update field then Inr True
               else Inr False))"

subsection \<open>Serialising: \<^verbatim>\<open>to_db_dict\<close>\<close>

text \<open>
  The loop body of \<^verbatim>\<open>to_db_dict\<close>, over the remaining fields, with the dict built so
  far. The local \<^verbatim>\<open>field_changed\<close> holds what \<^verbatim>\<open>_is_field_unchanged\<close> returned; an
  exception of the \<^verbatim>\<open>try\<close> block is wrapped with the instance and the path.
\<close>

fun to_db_dict_loop ::
  "model_meta \<Rightarrow> model \<Rightarrow> dump_options \<Rightarrow> field_desc list \<Rightarrow> (string \<rightharpoonup> pyval)
     \<Rightarrow> exn + (string \<rightharpoonup> pyval)" where
  "to_db_dict_loop m self opts [] result = Inr result"
| "to_db_dict_loop m self opts (field # rest) result =
     (if cls field = IDField \<and> \<not> include_in_document field
      then to_db_dict_loop m self opts rest result
      else case is_field_unchanged m self (name field) of
        Inl x \<Rightarrow> Inl x
      | Inr changed \<Rightarrow>
          if ignore_unchanged opts \<and> \<not> changed
          then to_db_dict_loop m self opts rest result
          else (case (case getattr m self (name field) of
                        Inl x \<Rightarrow> Inl x
                      | Inr nested_field_value \<Rightarrow>
                          get_value field nested_field_value (Some opts)) of
                  Inl error \<Rightarrow> Inl (ModelSerializingWrappedError self [name field] error)
                | Inr v \<Rightarrow>
                    if v \<noteq> PyNone \<or> \<not> ignore_default_none opts \<or> changed
                    then to_db_dict_loop m self opts rest (result(db_column_name field \<mapsto> v))
                    else to_db_dict_loop m self opts rest result))"

definition to_db_dict :: "model_meta \<Rightarrow> model \<Rightarrow> dump_options \<Rightarrow> exn + (string \<rightharpoonup> pyval)" where
  "to_db_dict m self opts = to_db_dict_loop m self opts (field_list m) Map.empty"

subsection \<open>Loading: \<^verbatim>\<open>populate_from_doc_dict\<close>\<close>

text \<open>
  A document dict is an association list; \<open>map_of\<close> is the lookup and its domain the
  key set. The loop over \<^verbatim>\<open>chain(field_list.values(), new_extra_fields)\<close>:
\<close>

fun populate_fields ::
  "model_meta \<Rightarrow> (string \<times> pyval) list \<Rightarrow> bool \<Rightarrow> bool \<Rightarrow> bool \<Rightarrow> field_desc list \<Rightarrow> model
     \<Rightarrow> exn + model" where
  "populate_fields m doc_dict stored merging by_column_name [] self = Inr self"
| "populate_fields m doc_dict stored merging by_column_name (field # rest) self =
     (let field_name_in_dict = (if by_column_name then db_column_name field else name field);
          raw_value = (case map_of doc_dict field_name_in_dict of Some v \<Rightarrow> v | None \<Rightarrow> PyNone);
          has_value = (getattr_default self (name field) \<noteq> PyNone)
      in if map_of doc_dict field_name_in_dict \<noteq> None \<or> (\<not> merging \<and> has_value)
         then case field_value field raw_value
                     \<lparr>lo_model = self, lo_stored = stored, lo_merge = merging,
                      lo_by_column_name = by_column_name\<rparr> of
                Inl x \<Rightarrow> Inl x
              | Inr v \<Rightarrow>
                  (case (if stored then set_orig_attr m self (name field) v
                         else setattr m self (name field) v) of
                     Inl x \<Rightarrow> Inl x
                   | Inr self1 \<Rightarrow>
                       populate_fields m doc_dict stored merging by_column_name rest self1)
         else populate_fields m doc_dict stored merging by_column_name rest self)"

text \<open>
  \<^verbatim>\<open>set(doc_dict) - set(self._meta.field_list)\<close>, and the descriptors the registry
  resolves for these names. Python iterates the set in an order of its own; the
  model takes the order of the keys in the document.
\<close>

definition new_extra_fields_names :: "model_meta \<Rightarrow> (string \<times> pyval) list \<Rightarrow> string set" where
  "new_extra_fields_names m doc_dict = set (map fst doc_dict) - field_names m"

definition new_extra_fields :: "model_meta \<Rightarrow> (string \<times> pyval) list \<Rightarrow> field_desc list" where
  "new_extra_fields m doc_dict =
     List.map_filter (get_field_by_column_name m)
       (remdups (filter (\<lambda>k. k \<notin> field_names m) (map fst doc_dict)))"

text \<open>
  The first block of \<^verbatim>\<open>populate_from_doc_dict\<close>: without \<^verbatim>\<open>merge\<close>, every old extra
  attribute is deleted (\<^verbatim>\<open>delattr\<close> raises on a name the instance does not hold) and
  the set of extra fields is emptied.
\<close>

definition drop_old_extra_fields :: "model_meta \<Rightarrow> model \<Rightarrow> exn + model" where
  "drop_old_extra_fields m self =
     (let old_extra_fields = extra_fields self - field_names m
      in if \<exists>n \<in> old_extra_fields. attrs self n = None then Inl AttributeError
         else Inr (self\<lparr>attrs := attrs self |` (- old_extra_fields), extra_fields := {}\<rparr>))"

definition populate_from_doc_dict ::
  "model_meta \<Rightarrow> model \<Rightarrow> (string \<times> pyval) list \<Rightarrow> bool \<Rightarrow> bool \<Rightarrow> bool \<Rightarrow> exn + model" where
  "populate_from_doc_dict m self doc_dict stored merging by_column_name =
     (case (if \<not> merging then drop_old_extra_fields m self else Inr self) of
        Inl x \<Rightarrow> Inl x
      | Inr self1 \<Rightarrow>
          if new_extra_fields_names m doc_dict \<noteq> {} \<and> \<not> by_column_name
          then Inl (NotImplementedError (new_extra_fields_names m doc_dict))
          else (case populate_fields m doc_dict stored merging by_column_name
                       (field_list m @ new_extra_fields m doc_dict) self1 of
                  Inl x \<Rightarrow> Inl x
                | Inr self2 \<Rightarrow>
                    if \<not> merging \<and> stored then Inr (self2\<lparr>field_changed := {}\<rparr>)
                    else Inr self2))"

subsection \<open>Identifier and key\<close>

text \<open>
  The getter of \<^verbatim>\<open>_id\<close>: reading the identifier may assign it, so the instance is
  returned with the value. As for the setter, an identifier attribute that is itself
  called \<^verbatim>\<open>_id\<close> would make the getter read itself.
\<close>

definition id_get :: "model_meta \<Rightarrow> model \<Rightarrow> exn + (pyval \<times> model)" where
  "id_get m self =
     (if id_name m = ''_id'' then Inl RecursionError
      else case getattr m self (id_name m) of
        Inl x \<Rightarrow> Inl x
      | Inr raw_value \<Rightarrow>
          (case get_value (id_field m) raw_value None of
             Inl x \<Rightarrow> Inl x
           | Inr v \<Rightarrow>
               if raw_value = PyNone \<and> v \<noteq> PyNone
               then (case setattr m self (id_name m) v of
                       Inl x \<Rightarrow> Inl x
                     | Inr self1 \<Rightarrow> Inr (v, self1))
               else Inr (v, self)))"

text \<open>
  The \<^verbatim>\<open>try\<close> block of the property \<^verbatim>\<open>key\<close>. An exception comes with the instance as
  it is when raised.
\<close>

definition key_try :: "model_meta \<Rightarrow> model \<Rightarrow> (exn \<times> model) + (string \<times> model)" where
  "key_try m self =
     (case id_get m self of
        Inl x \<Rightarrow> Inl (x, self)
      | Inr (v, self1) \<Rightarrow>
          (case join_key (parent self) (collection_name m) v of
             Inl x \<Rightarrow> Inl (x, self1)
           | Inr k \<Rightarrow> Inr (k, self1)))"

text \<open>
  The property \<^verbatim>\<open>key\<close>. Its result is a Python value that the callers compare with
  \<^verbatim>\<open>None\<close>, hence the \<open>option\<close>.
\<close>

definition key :: "model_meta \<Rightarrow> model \<Rightarrow> exn + (string option \<times> model)" where
  "key m self =
     (if (case priv_key self of None \<Rightarrow> False | Some k \<Rightarrow> k \<noteq> [])
      then Inr (priv_key self, self)
      else case (case key_try m self of
                   Inr r \<Rightarrow> Inr r
                 | Inl (x, self1) \<Rightarrow>
                     if x = TypeError \<or> x = RequiredField
                     then (case join_key (parent self1) (collection_name m)
                                  (PyStr ''@temp_doc_id'') of
                             Inl y \<Rightarrow> Inl y
                           | Inr k \<Rightarrow> Inr (k, self1))
                     else Inl x) of
             Inl x \<Rightarrow> Inl x
           | Inr (k, self1) \<Rightarrow>
               (case strip_slash k of
                  Inl x \<Rightarrow> Inl x
                | Inr k1 \<Rightarrow> Inr (Some k1, self1)))"

subsection \<open>\<^verbatim>\<open>update\<close> and \<^verbatim>\<open>refresh\<close>\<close>

text \<open>
  \<^verbatim>\<open>self.parent = p\<close>, through \<^verbatim>\<open>__setattr__\<close>: the assignment by which the class
  itself sets its state, with a string.
\<close>

definition set_parent :: "model_meta \<Rightarrow> model \<Rightarrow> string \<Rightarrow> model" where
  "set_parent m self p =
     (if ''parent'' \<in> field_names m
      then self\<lparr>field_changed := insert ''parent'' (field_changed self)\<rparr>
      else self)\<lparr>parent := p\<rparr>"

text \<open>
  The \<^verbatim>\<open>if\<close> / \<^verbatim>\<open>elif\<close> of \<^verbatim>\<open>update\<close>, on the key \<open>k\<close> chosen before it. For a
  string \<open>k\<close> the \<^verbatim>\<open>if\<close> decides alone, since \<^verbatim>\<open>key is None\<close> is false in the
  \<^verbatim>\<open>elif\<close>. For \<^verbatim>\<open>None\<close> the \<^verbatim>\<open>elif\<close> reads the property again in
  \<^verbatim>\<open>'@temp_doc_id' in self.key\<close>, which raises \<^verbatim>\<open>TypeError\<close> on \<^verbatim>\<open>None\<close>.
\<close>

definition update_check :: "utils \<Rightarrow> model_meta \<Rightarrow> model \<Rightarrow> string option \<Rightarrow> exn + model" where
  "update_check u m self k =
     (case k of
        Some ks \<Rightarrow>
          if \<not> sublist ''@temp_doc_id'' ks
          then setattr m (set_parent m self (get_parent_doc u ks)) ''_id'' (get_id u ks)
          else Inr self
      | None \<Rightarrow>
          (case key m self of
             Inl x \<Rightarrow> Inl x
           | Inr (None, self1) \<Rightarrow> Inl TypeError
           | Inr (Some k1, self1) \<Rightarrow>
               if sublist ''@temp_doc_id'' k1 then Inl InvalidKey else Inr self1))"

definition update ::
  "utils \<Rightarrow> manager \<Rightarrow> model_meta \<Rightarrow> model \<Rightarrow> string option \<Rightarrow> pyval \<Rightarrow> pyval \<Rightarrow> exn + model" where
  "update u mgr m self key_arg transaction batch =
     (case (if key_arg = None \<or> key_arg = Some [] then key m self else Inr (key_arg, self)) of
        Inl x \<Rightarrow> Inl x
      | Inr (k, self1) \<Rightarrow>
          (case update_check u m self1 k of
             Inl x \<Rightarrow> Inl x
           | Inr self2 \<Rightarrow> mgr_update mgr self2 transaction batch))"

definition refresh :: "manager \<Rightarrow> model_meta \<Rightarrow> model \<Rightarrow> pyval \<Rightarrow> exn + model" where
  "refresh mgr m self transaction =
     (case key m self of
        Inl x \<Rightarrow> Inl x
      | Inr (None, self1) \<Rightarrow> Inl ValueError
      | Inr (Some k, self1) \<Rightarrow> mgr_refresh mgr self1 transaction)"

subsection \<open>Construction\<close>

text \<open>\<^verbatim>\<open>for k, v in kwargs.items(): setattr(self, k, v)\<close>.\<close>

fun init_kwargs :: "model_meta \<Rightarrow> (string \<times> pyval) list \<Rightarrow> model \<Rightarrow> exn + model" where
  "init_kwargs m [] self = Inr self"
| "init_kwargs m ((k, v) # kwargs) self =
     (case setattr m self k v of
        Inl x \<Rightarrow> Inl x
      | Inr self1 \<Rightarrow> init_kwargs m kwargs self1)"

text \<open>The loop that creates the instances of nested models.\<close>

fun init_nested ::
  "model_meta \<Rightarrow> (string \<times> pyval) list \<Rightarrow> field_desc list \<Rightarrow> model \<Rightarrow> exn + model" where
  "init_nested m kwargs [] self = Inr self"
| "init_nested m kwargs (f # fs) self =
     (if cls f = NestedModelField
      then (case map_of kwargs (name f) of
              None \<Rightarrow>
                (case nested_model f of
                   Inl x \<Rightarrow> Inl x
                 | Inr inst \<Rightarrow>
                     (case setattr m self (name f) inst of
                        Inl x \<Rightarrow> Inl x
                      | Inr self1 \<Rightarrow> init_nested m kwargs fs self1))
            | Some (PyDict d) \<Rightarrow>
                (case nested_from_dict f (PyDict d) of
                   Inl x \<Rightarrow> Inl x
                 | Inr inst \<Rightarrow>
                     (case setattr m self (name f) inst of
                        Inl x \<Rightarrow> Inl x
                      | Inr self1 \<Rightarrow> init_nested m kwargs fs self1))
            | Some _ \<Rightarrow> init_nested m kwargs fs self)
      else init_nested m kwargs fs self)"

text \<open>
  \<^verbatim>\<open>__init__(self, *args, parent, **kwargs)\<close>. The first statement assigns
  \<^verbatim>\<open>parent\<close> while \<^verbatim>\<open>_field_changed\<close> is still the class-level \<^verbatim>\<open>None\<close>, so a
  declared field of that name makes \<^verbatim>\<open>__setattr__\<close> fail.
\<close>

definition init :: "model_meta \<Rightarrow> pyval list \<Rightarrow> string \<Rightarrow> (string \<times> pyval) list \<Rightarrow> exn + model" where
  "init m args parent_arg kwargs =
     (if ''parent'' \<in> field_names m then Inl AttributeError
      else if args \<noteq> [] then Inl AttributeError
      else if set (map fst kwargs) - field_names m \<noteq> {} then Inl AttributeError
      else if abstract m then Inl AbstractNotInstantiate
      else case init_kwargs m kwargs
                  \<lparr>parent = parent_arg, priv_key = None, field_changed = {},
                   extra_fields = {}, attrs = Map.empty\<rparr> of
             Inl x \<Rightarrow> Inl x
           | Inr self1 \<Rightarrow> init_nested m kwargs (field_list m) self1)"

subsection \<open>\<^verbatim>\<open>from_dict\<close> and \<^verbatim>\<open>merge_with_dict\<close>\<close>

text \<open>
  \<^verbatim>\<open>from_dict(model_dict, by_column_name)\<close>: \<^verbatim>\<open>None\<close> for \<^verbatim>\<open>None\<close>, else \<^verbatim>\<open>cls()\<close>
  populated with \<^verbatim>\<open>stored\<close> and \<^verbatim>\<open>merge\<close> at their default \<^verbatim>\<open>False\<close>.
\<close>

definition from_dict ::
  "model_meta \<Rightarrow> (string \<times> pyval) list option \<Rightarrow> bool \<Rightarrow> exn + model option" where
  "from_dict m model_dict by_column_name =
     (case model_dict of
        None \<Rightarrow> Inr None
      | Some d \<Rightarrow>
          (case init m [] '''' [] of
             Inl x \<Rightarrow> Inl x
           | Inr instance \<Rightarrow>
               (case populate_from_doc_dict m instance d False False by_column_name of
                  Inl x \<Rightarrow> Inl x
                | Inr instance1 \<Rightarrow> Inr (Some instance1))))"

definition merge_with_dict ::
  "model_meta \<Rightarrow> model \<Rightarrow> (string \<times> pyval) list \<Rightarrow> bool \<Rightarrow> exn + model" where
  "merge_with_dict m self model_dict by_column_name =
     populate_from_doc_dict m self model_dict False True by_column_name"

subsection \<open>Example schemas and instances\<close>

text \<open>
  A descriptor that stores values as they are: \<^verbatim>\<open>get_value\<close> and \<^verbatim>\<open>field_value\<close>
  return their argument, the column is called like the attribute.
\<close>

definition simple_field :: "string \<Rightarrow> field_class \<Rightarrow> field_desc" where
  "simple_field n c =
     \<lparr>name = n, db_column_name = n, cls = c, include_in_document = False, auto_update = False,
      nested_model = Inr (PyModel []), nested_from_dict = (\<lambda>d. Inr (PyModel [])),
      get_value = (\<lambda>v opts. Inr v), field_value = (\<lambda>raw opts. Inr raw)\<rparr>"

text \<open>\<^verbatim>\<open>class User(Model): id = IDField(); name = TextField()\<close>, in collection \<^verbatim>\<open>users\<close>.\<close>

definition user_meta :: model_meta where
  "user_meta =
     \<lparr>field_list = [simple_field ''id'' IDField, simple_field ''name'' OtherField],
      id_name = ''id'', id_field = simple_field ''id'' IDField, abstract = False,
      collection_name = ''users'', get_field_by_column_name = (\<lambda>c. None)\<rparr>"

text \<open>The same type with a registry that resolves every unknown column to a pass-through field.\<close>

definition open_user_meta :: model_meta where
  "open_user_meta =
     user_meta\<lparr>get_field_by_column_name := (\<lambda>c. Some (simple_field c OtherField))\<rparr>"

text \<open>
  \<^verbatim>\<open>class Post(Model)\<close> with a text field, a list field and a timestamp with
  \<^verbatim>\<open>auto_update=True\<close>.
\<close>

definition post_meta :: model_meta where
  "post_meta =
     \<lparr>field_list = [simple_field ''id'' IDField, simple_field ''title'' OtherField,
                    simple_field ''tags'' ListField,
                    (simple_field ''updated'' DateTime)\<lparr>auto_update := True\<rparr>],
      id_name = ''id'', id_field = simple_field ''id'' IDField, abstract = False,
      collection_name = ''posts'', get_field_by_column_name = (\<lambda>c. None)\<rparr>"

text \<open>\<^verbatim>\<open>class Profile(Model): id = IDField(); address = NestedModelField(Address)\<close>.\<close>

definition profile_meta :: model_meta where
  "profile_meta =
     \<lparr>field_list = [simple_field ''id'' IDField, simple_field ''address'' NestedModelField],
      id_name = ''id'', id_field = simple_field ''id'' IDField, abstract = False,
      collection_name = ''profile'', get_field_by_column_name = (\<lambda>c. None)\<rparr>"

text \<open>\<^verbatim>\<open>User(parent=p)\<close>: nothing assigned, no identifier.\<close>

definition new_user :: "string \<Rightarrow> model" where
  "new_user p =
     \<lparr>parent = p, priv_key = None, field_changed = {}, extra_fields = {}, attrs = Map.empty\<rparr>"

text \<open>\<^verbatim>\<open>User(parent=p, id="u1")\<close>.\<close>

definition user_u1 :: "string \<Rightarrow> model" where
  "user_u1 p =
     \<lparr>parent = p, priv_key = None, field_changed = {''id''}, extra_fields = {},
      attrs = [''id'' \<mapsto> PyStr ''u1'']\<rparr>"

text \<open>A user as loaded from storage, with the tracked extra attribute \<^verbatim>\<open>nick\<close>.\<close>

definition tracked_user :: model where
  "tracked_user =
     \<lparr>parent = '''', priv_key = Some ''users/u1'', field_changed = {}, extra_fields = {''nick''},
      attrs = [''id'' \<mapsto> PyStr ''u1'', ''name'' \<mapsto> PyStr ''Azeem'', ''nick'' \<mapsto> PyStr ''az'']\<rparr>"

text \<open>A post as loaded from storage, with tags and no title.\<close>

definition loaded_post :: model where
  "loaded_post =
     \<lparr>parent = '''', priv_key = Some ''posts/p1'', field_changed = {}, extra_fields = {},
      attrs = [''id'' \<mapsto> PyStr ''p1'', ''tags'' \<mapsto> PyList [PyStr ''a'']]\<rparr>"

text \<open>A post whose title was assigned \<^verbatim>\<open>None\<close> by the caller.\<close>

definition edited_post :: model where
  "edited_post =
     \<lparr>parent = '''', priv_key = Some ''posts/p1'', field_changed = {''title''}, extra_fields = {},
      attrs = [''id'' \<mapsto> PyStr ''p1'', ''title'' \<mapsto> PyNone]\<rparr>"

text \<open>\<^verbatim>\<open>Profile()\<close> after construction.\<close>

definition new_profile :: model where
  "new_profile =
     \<lparr>parent = '''', priv_key = None, field_changed = {''address''}, extra_fields = {},
      attrs = [''address'' \<mapsto> PyModel []]\<rparr>"

text \<open>Documents, and the instances that loading them yields.\<close>

definition stored_user :: model where
  "stored_user =
     \<lparr>parent = '''', priv_key = None, field_changed = {}, extra_fields = {},
      attrs = [''name'' \<mapsto> PyStr ''Arfan'']\<rparr>"

definition post_doc :: "(string \<times> pyval) list" where
  "post_doc = [(''title'', PyStr ''Hello''), (''tags'', PyList [PyStr ''a''])]"

definition stored_post :: model where
  "stored_post =
     \<lparr>parent = '''', priv_key = None, field_changed = {}, extra_fields = {},
      attrs = [''title'' \<mapsto> PyStr ''Hello'', ''tags'' \<mapsto> PyList [PyStr ''a'']]\<rparr>"

definition merged_stored_user :: model where
  "merged_stored_user =
     \<lparr>parent = '''', priv_key = Some ''users/u1'', field_changed = {}, extra_fields = {''nick''},
      attrs = [''id'' \<mapsto> PyStr ''u1'', ''name'' \<mapsto> PyStr ''Arfan'', ''nick'' \<mapsto> PyStr ''az'']\<rparr>"

definition merged_user :: model where
  "merged_user =
     \<lparr>parent = '''', priv_key = Some ''users/u1'', field_changed = {''name''},
      extra_fields = {''nick''},
      attrs = [''id'' \<mapsto> PyStr ''u1'', ''name'' \<mapsto> PyStr ''Arfan'', ''nick'' \<mapsto> PyStr ''az'']\<rparr>"

definition nick_doc :: "(string \<times> pyval) list" where
  "nick_doc = [(''name'', PyStr ''Arfan''), (''nick'', PyStr ''az'')]"

text \<open>A document with the entry \<^verbatim>\<open>key\<close>, as \<^verbatim>\<open>to_dict\<close> writes it.\<close>

definition key_doc :: "(string \<times> pyval) list" where
  "key_doc = [(''name'', PyStr ''Arfan''), (''key'', PyStr ''users/u1'')]"

text \<open>A manager that returns the instance it is given.\<close>

definition echo_manager :: manager where
  "echo_manager =
     \<lparr>mgr_update = (\<lambda>self transaction batch. Inr self),
      mgr_refresh = (\<lambda>self transaction. Inr self)\<rparr>"

definition nick_user_stored :: model where
  "nick_user_stored =
     \<lparr>parent = '''', priv_key = None, field_changed = {}, extra_fields = {''nick''},
      attrs = [''name'' \<mapsto> PyStr ''Arfan'', ''nick'' \<mapsto> PyStr ''az'']\<rparr>"

definition nick_user_unstored :: model where
  "nick_user_unstored =
     \<lparr>parent = '''', priv_key = None, field_changed = {''name''}, extra_fields = {},
      attrs = [''name'' \<mapsto> PyStr ''Arfan'', ''nick'' \<mapsto> PyStr ''az'']\<rparr>"

section \<open>Properties\<close>

subsection \<open>Attribute access and the setters\<close>

lemmas fixture_defs =
  simple_field_def user_meta_def open_user_meta_def post_meta_def profile_meta_def
  new_user_def user_u1_def tracked_user_def loaded_post_def edited_post_def new_profile_def
  stored_user_def post_doc_def stored_post_def merged_stored_user_def merged_user_def
  nick_doc_def nick_user_stored_def nick_user_unstored_def

lemmas eval_defs =
  field_names_def lookup_field_def getattr_def getattr_default_def is_field_unchanged_def

lemmas load_defs =
  populate_from_doc_dict_def drop_old_extra_fields_def new_extra_fields_names_def
  new_extra_fields_def setattr_def set_orig_attr_def object_setattr_def store_attr_def
  readonly_properties_def shadowing_names_def List.map_filter_def

lemma lookup_field_name: "lookup_field m n = Some f \<Longrightarrow> name f = n \<and> f \<in> set (field_list m)"
  by (auto simp: lookup_field_def find_Some_iff)

lemma lookup_field_declared: "lookup_field m n = Some f \<Longrightarrow> n \<in> field_names m"
  using lookup_field_name [of m n f] by (auto simp: field_names_def)

lemma getattr_declared: "n \<in> field_names m \<Longrightarrow> getattr m self n = Inr (getattr_default self n)"
  by (simp add: getattr_def getattr_default_def split: option.splits)

lemma lookup_field_distinct:
  "distinct (map name fs) \<Longrightarrow> f \<in> set fs \<Longrightarrow> find (\<lambda>g. name g = name f) fs = Some f"
  by (induction fs) auto

lemma is_field_unchanged_declared:
  assumes "lookup_field m n = Some f"
  shows "is_field_unchanged m self n =
           Inr (n \<in> field_changed self
                \<or> (cls f \<in> {MapField, ListField, NestedModelField} \<and> getattr_default self n \<noteq> PyNone)
                \<or> (cls f = DateTime \<and> auto_update f))"
  using assms lookup_field_declared [OF assms]
  by (auto simp: is_field_unchanged_def getattr_declared)

lemma set_key_frame:
  "set_key m self d = Inr self' \<Longrightarrow>
     field_changed self' = field_changed self \<and> extra_fields self' = extra_fields self
     \<and> attrs self' = attrs self \<and> parent self' = parent self"
  by (auto simp: set_key_def split: sum.splits)

lemma store_attr_Inr:
  "store_attr self k v = Inr self' \<Longrightarrow> self' = self\<lparr>attrs := (attrs self)(k \<mapsto> v)\<rparr>"
  by (auto simp: store_attr_def split: if_splits)

lemma store_attr_ordinary:
  "ordinary_name k \<Longrightarrow> store_attr self k v = Inr (self\<lparr>attrs := (attrs self)(k \<mapsto> v)\<rparr>)"
  by (simp add: store_attr_def ordinary_name_def)

lemma setattr_plain_Inr:
  assumes "setattr_plain m self k v = Inr self'"
  shows "field_changed self' =
           (if k \<in> field_names m then insert k (field_changed self) else field_changed self)
         \<and> extra_fields self' = extra_fields self \<and> attrs self' = (attrs self)(k \<mapsto> v)"
  using store_attr_Inr [OF assms [unfolded setattr_plain_def]] by simp

lemma id_set_grows:
  assumes "id_set m self d = Inr self'"
  shows "field_changed self \<subseteq> field_changed self' \<and> field_changed self' \<subseteq> field_changed self \<union> field_names m
         \<and> extra_fields self' = extra_fields self \<and> dom (attrs self) \<subseteq> dom (attrs self')"
proof -
  from assms obtain s where s: "setattr_plain m self (id_name m) d = Inr s"
    and "set_key m s d = Inr self' \<or> self' = s"
    by (auto simp: id_set_def split: if_splits sum.splits)
  then have "field_changed self' = field_changed s \<and> extra_fields self' = extra_fields s
             \<and> attrs self' = attrs s"
    using set_key_frame [of m s d self'] by blast
  with setattr_plain_Inr [OF s] show ?thesis by auto
qed

lemma object_setattr_grows:
  assumes "object_setattr m self k v = Inr self'"
  shows "field_changed self \<subseteq> field_changed self' \<and> field_changed self' \<subseteq> field_changed self \<union> field_names m
         \<and> extra_fields self' = extra_fields self \<and> dom (attrs self) \<subseteq> dom (attrs self')"
proof (cases "k = ''_id''")
  case True
  with assms have "id_set m self v = Inr self'" by (simp add: object_setattr_def)
  then show ?thesis by (rule id_set_grows)
next
  case False
  with assms have "store_attr self k v = Inr self'" by (simp add: object_setattr_def)
  from store_attr_Inr [OF this] show ?thesis by auto
qed

lemma setattr_grows:
  assumes "setattr m self k v = Inr self'"
  shows "field_changed self \<subseteq> field_changed self' \<and> field_changed self' \<subseteq> field_changed self \<union> field_names m
         \<and> extra_fields self' = extra_fields self \<and> dom (attrs self) \<subseteq> dom (attrs self')"
  using object_setattr_grows [OF assms [unfolded setattr_def]]
  by (auto split: if_splits)

lemma set_orig_attr_grows:
  assumes "set_orig_attr m self k v = Inr self'"
  shows "field_changed self \<subseteq> field_changed self' \<and> field_changed self' \<subseteq> field_changed self \<union> field_names m
         \<and> extra_fields self \<subseteq> extra_fields self' \<and> dom (attrs self) \<subseteq> dom (attrs self')"
  using object_setattr_grows [OF assms [unfolded set_orig_attr_def]]
  by (auto split: if_splits)

text \<open>What a successful assignment of a name other than \<^verbatim>\<open>_id\<close> leaves behind.\<close>

lemma setattr_not_id:
  assumes "setattr m self k v = Inr self'" and "k \<noteq> ''_id''"
  shows "field_changed self' =
           (if k \<in> field_names m then insert k (field_changed self) else field_changed self)
         \<and> extra_fields self' = extra_fields self \<and> attrs self' = (attrs self)(k \<mapsto> v)"
proof -
  from assms have "setattr_plain m self k v = Inr self'"
    by (simp add: setattr_def object_setattr_def setattr_plain_def)
  then show ?thesis by (rule setattr_plain_Inr)
qed

lemma set_orig_attr_not_id:
  assumes "set_orig_attr m self k v = Inr self'" and "k \<noteq> ''_id''"
  shows "field_changed self' = field_changed self
         \<and> extra_fields self' =
             (if k \<notin> field_names m then insert k (extra_fields self) else extra_fields self)
         \<and> attrs self' = (attrs self)(k \<mapsto> v)"
proof -
  let ?s = "if k \<notin> field_names m then self\<lparr>extra_fields := insert k (extra_fields self)\<rparr> else self"
  from assms have "store_attr ?s k v = Inr self'"
    by (simp add: set_orig_attr_def object_setattr_def)
  from store_attr_Inr [OF this] show ?thesis by simp
qed

text \<open>An ordinary name can always be assigned.\<close>

lemma setattr_ordinary:
  "ordinary_name k \<Longrightarrow> \<exists>self'. setattr m self k v = Inr self'"
  by (simp add: setattr_def object_setattr_def store_attr_ordinary ordinary_name_def)

lemma set_orig_attr_ordinary:
  "ordinary_name k \<Longrightarrow> \<exists>self'. set_orig_attr m self k v = Inr self'"
  by (simp add: set_orig_attr_def object_setattr_def store_attr_ordinary ordinary_name_def)


subsection \<open>Change tracking\<close>

text \<open>
  \<^bold>\<open>C4\<close>. For a declared attribute \<open>n\<close> with descriptor \<open>f\<close>, \<^verbatim>\<open>_is_field_unchanged(n)\<close>
  returns true exactly when \<open>n\<close> is in the set of changed attributes, or \<open>f\<close> is a map,
  list or nested-model field and the current value is not \<^verbatim>\<open>None\<close>, or \<open>f\<close> is a
  \<^verbatim>\<open>DateTime\<close> with \<^verbatim>\<open>auto_update\<close>; in every other case it returns false.
\<close>

theorem is_field_unchanged_cases:
  assumes "lookup_field m n = Some f"
  shows "is_field_unchanged m self n =
           Inr (n \<in> field_changed self
                \<or> (cls f \<in> {MapField, ListField, NestedModelField} \<and> getattr_default self n \<noteq> PyNone)
                \<or> (cls f = DateTime \<and> auto_update f))"
  using assms by (rule is_field_unchanged_declared)

theorem is_field_unchanged_cases_witness:
  "lookup_field post_meta ''tags'' = Some (simple_field ''tags'' ListField)
   \<and> is_field_unchanged post_meta loaded_post ''tags'' = Inr True
   \<and> lookup_field post_meta ''title'' = Some (simple_field ''title'' OtherField)
   \<and> is_field_unchanged post_meta loaded_post ''title'' = Inr False"
proof -
  have t: "lookup_field post_meta ''tags'' = Some (simple_field ''tags'' ListField)"
    by (simp add: lookup_field_def post_meta_def simple_field_def)
  have n: "lookup_field post_meta ''title'' = Some (simple_field ''title'' OtherField)"
    by (simp add: lookup_field_def post_meta_def simple_field_def)
  show ?thesis
    using t n is_field_unchanged_cases [OF t, of loaded_post]
      is_field_unchanged_cases [OF n, of loaded_post]
    by (simp add: loaded_post_def getattr_default_def simple_field_def)
qed

subsection \<open>Construction\<close>

lemma init_kwargs_grows:
  "init_kwargs m kwargs self = Inr self' \<Longrightarrow> field_changed self \<subseteq> field_changed self'"
proof (induction kwargs arbitrary: self)
  case Nil
  then show ?case by simp
next
  case (Cons kv kwargs)
  obtain k v where kv: "kv = (k, v)" by (cases kv)
  from Cons.prems kv obtain self1 where
    s: "setattr m self k v = Inr self1" "init_kwargs m kwargs self1 = Inr self'"
    by (auto split: sum.splits)
  from setattr_grows [OF s(1)] Cons.IH [OF s(2)] show ?case by blast
qed

lemma init_nested_Cons:
  assumes "init_nested m kwargs (f # fs) self = Inr self'"
  obtains "init_nested m kwargs fs self = Inr self'"
      and "cls f \<noteq> NestedModelField \<or> map_of kwargs (name f) \<noteq> None"
  | inst self1 where "cls f = NestedModelField" "map_of kwargs (name f) = None"
      "nested_model f = Inr inst" "setattr m self (name f) inst = Inr self1"
      "init_nested m kwargs fs self1 = Inr self'"
  | d inst self1 where "cls f = NestedModelField" "map_of kwargs (name f) = Some (PyDict d)"
      "setattr m self (name f) inst = Inr self1"
      "init_nested m kwargs fs self1 = Inr self'"
  using assms by (auto split: if_splits option.splits sum.splits pyval.splits)

lemma init_nested_grows:
  "init_nested m kwargs fs self = Inr self' \<Longrightarrow> field_changed self \<subseteq> field_changed self'"
proof (induction fs arbitrary: self)
  case Nil
  then show ?case by simp
next
  case (Cons f fs)
  from Cons.prems show ?case
  proof (cases rule: init_nested_Cons)
    case 1
    then show ?thesis using Cons.IH by blast
  next
    case (2 inst self1)
    from setattr_grows [OF 2(4)] Cons.IH [OF 2(5)] show ?thesis by blast
  next
    case (3 d inst self1)
    from setattr_grows [OF 3(3)] Cons.IH [OF 3(4)] show ?thesis by blast
  qed
qed

lemma init_nested_frame:
  "init_nested m kwargs fs self = Inr self' \<Longrightarrow> ''_id'' \<notin> name ` set fs \<Longrightarrow>
     n \<notin> name ` set fs \<Longrightarrow> attrs self' n = attrs self n"
proof (induction fs arbitrary: self)
  case Nil
  then show ?case by simp
next
  case (Cons f fs)
  from Cons.prems(2,3) have ne: "name f \<noteq> ''_id''" "name f \<noteq> n"
    and rest: "''_id'' \<notin> name ` set fs" "n \<notin> name ` set fs" by auto
  from Cons.prems(1) show ?case
  proof (cases rule: init_nested_Cons)
    case 1
    then show ?thesis using Cons.IH rest by blast
  next
    case (2 inst self1)
    from setattr_not_id [OF 2(4) ne(1)] ne have "attrs self1 n = attrs self n" by simp
    with Cons.IH [OF 2(5) rest] show ?thesis by simp
  next
    case (3 d inst self1)
    from setattr_not_id [OF 3(3) ne(1)] ne have "attrs self1 n = attrs self n" by simp
    with Cons.IH [OF 3(4) rest] show ?thesis by simp
  qed
qed

lemma setattr_marks:
  assumes "setattr m self k v = Inr self'" and "k \<in> field_names m"
  shows "k \<in> field_changed self'"
proof -
  let ?s = "self\<lparr>field_changed := insert k (field_changed self)\<rparr>"
  from assms have "object_setattr m ?s k v = Inr self'" by (simp add: setattr_def)
  from object_setattr_grows [OF this] show ?thesis by auto
qed

lemma init_nested_marks:
  assumes "init_nested m kwargs fs self = Inr self'"
    and "f \<in> set fs" and "cls f = NestedModelField" and "map_of kwargs (name f) = None"
    and "name f \<in> field_names m"
  shows "name f \<in> field_changed self'
         \<and> (distinct (map name fs) \<and> ''_id'' \<notin> name ` set fs \<longrightarrow>
              (\<exists>inst. nested_model f = Inr inst \<and> attrs self' (name f) = Some inst))"
  using assms(1,2)
proof (induction fs arbitrary: self)
  case Nil
  then show ?case by simp
next
  case (Cons g gs)
  show ?case
  proof (cases "g = f")
    case True
    from Cons.prems(1) [unfolded True] show ?thesis
    proof (cases rule: init_nested_Cons)
      case 1
      with assms(3,4) show ?thesis by simp
    next
      case (2 inst self1)
      from setattr_marks [OF 2(4) assms(5)] init_nested_grows [OF 2(5)]
      have c: "name f \<in> field_changed self'" by blast
      have "attrs self' (name f) = Some inst"
        if d: "distinct (map name (g # gs)) \<and> ''_id'' \<notin> name ` set (g # gs)"
      proof -
        from d True have ne: "name f \<noteq> ''_id''" and i: "''_id'' \<notin> name ` set gs"
          and n: "name f \<notin> name ` set gs" by auto
        from setattr_not_id [OF 2(4) ne] have "attrs self1 (name f) = Some inst" by simp
        with init_nested_frame [OF 2(5) i n] show ?thesis by simp
      qed
      with c 2(3) show ?thesis by blast
    next
      case (3 d inst self1)
      with assms(4) show ?thesis by simp
    qed
  next
    case False
    with Cons.prems(2) have f: "f \<in> set gs" by simp
    from Cons.prems(1) show ?thesis
      by (cases rule: init_nested_Cons) (use Cons.IH [OF _ f] in auto)+
  qed
qed

text \<open>
  \<^bold>\<open>C10\<close>. When \<^verbatim>\<open>__init__\<close> returns for a type with a nested-model field \<open>f\<close> and no
  keyword argument was given for \<open>f\<close>, the name of \<open>f\<close> is in the set of changed
  attributes, which is therefore not empty although the caller assigned nothing.
  With distinct field names, none of them \<^verbatim>\<open>_id\<close>, the attribute holds the instance
  that \<^verbatim>\<open>f.nested_model()\<close> returned.
\<close>

theorem init_nested_field_changed:
  assumes "init m args parent_arg kwargs = Inr self"
    and "f \<in> set (field_list m)" and "cls f = NestedModelField"
    and "name f \<notin> fst ` set kwargs"
  shows "name f \<in> field_changed self \<and> field_changed self \<noteq> {}
         \<and> (distinct (map name (field_list m)) \<and> ''_id'' \<notin> field_names m \<longrightarrow>
              (\<exists>inst. nested_model f = Inr inst \<and> attrs self (name f) = Some inst))"
proof -
  from assms(1) obtain self1 where
    "init_nested m kwargs (field_list m) self1 = Inr self"
    by (auto simp: init_def split: if_splits sum.splits)
  moreover from assms(4) have "map_of kwargs (name f) = None"
    by (simp add: map_of_eq_None_iff)
  moreover from assms(2) have "name f \<in> field_names m" by (simp add: field_names_def)
  ultimately show ?thesis
    using init_nested_marks [of m kwargs "field_list m" self1 self f] assms(2,3)
    by (auto simp: field_names_def)
qed

lemma profile_init: "init profile_meta [] '''' [] = Inr new_profile"
  by (simp add: init_def load_defs fixture_defs eval_defs new_profile_def)

theorem init_nested_field_changed_witness:
  "init profile_meta [] '''' [] = Inr new_profile
   \<and> simple_field ''address'' NestedModelField \<in> set (field_list profile_meta)
   \<and> ''address'' \<in> field_changed new_profile
   \<and> field_changed new_profile \<noteq> {}
   \<and> attrs new_profile ''address'' = Some (PyModel [])"
proof -
  let ?f = "simple_field ''address'' NestedModelField"
  have f: "?f \<in> set (field_list profile_meta)" by (simp add: fixture_defs)
  have c: "cls ?f = NestedModelField" by (simp add: fixture_defs)
  have k: "name ?f \<notin> fst ` set []" by simp
  have d: "distinct (map name (field_list profile_meta)) \<and> ''_id'' \<notin> field_names profile_meta"
    by (simp add: fixture_defs eval_defs)
  from init_nested_field_changed [OF profile_init f c k] d profile_init f
  show ?thesis by (simp add: simple_field_def)
qed

subsection \<open>Serialising\<close>

lemma to_db_dict_loop_other:
  "to_db_dict_loop m self opts fs r = Inr r' \<Longrightarrow> k \<notin> db_column_name ` set fs \<Longrightarrow> r' k = r k"
proof (induction fs arbitrary: r)
  case Nil
  then show ?case by simp
next
  case (Cons f fs)
  from Cons.prems(2) have k: "k \<noteq> db_column_name f" "k \<notin> db_column_name ` set fs" by auto
  from Cons.prems(1) consider
      "to_db_dict_loop m self opts fs r = Inr r'"
    | v where "to_db_dict_loop m self opts fs (r(db_column_name f \<mapsto> v)) = Inr r'"
    by (auto split: if_splits sum.splits)
  then show ?case
  proof cases
    case 1
    then show ?thesis using Cons.IH k by blast
  next
    case 2
    then have "r' k = (r(db_column_name f \<mapsto> v)) k" using Cons.IH k by blast
    then show ?thesis using k by simp
  qed
qed

lemma to_db_dict_loop_origin:
  "to_db_dict_loop m self opts fs r = Inr r' \<Longrightarrow> r' k = Some v \<Longrightarrow>
     r k = Some v \<or> (\<exists>f \<in> set fs. db_column_name f = k \<and> (cls f = IDField \<longrightarrow> include_in_document f))"
proof (induction fs arbitrary: r)
  case Nil
  then show ?case by simp
next
  case (Cons f fs)
  show ?case
  proof (cases "cls f = IDField \<and> \<not> include_in_document f")
    case True
    with Cons.prems have "to_db_dict_loop m self opts fs r = Inr r'" by simp
    from Cons.IH [OF this Cons.prems(2)] show ?thesis by auto
  next
    case False
    from Cons.prems(1) False consider
        "to_db_dict_loop m self opts fs r = Inr r'"
      | w where "to_db_dict_loop m self opts fs (r(db_column_name f \<mapsto> w)) = Inr r'"
      by (auto split: if_splits sum.splits)
    then show ?thesis
    proof cases
      case 1
      from Cons.IH [OF this Cons.prems(2)] show ?thesis by auto
    next
      case 2
      from Cons.IH [OF this Cons.prems(2)] False show ?thesis
        by (auto split: if_splits)
    qed
  qed
qed

lemma to_db_dict_loop_entry:
  assumes "to_db_dict_loop m self opts fs r = Inr r'"
    and "f \<in> set fs" and "distinct (map db_column_name fs)"
    and "cls f = IDField \<longrightarrow> include_in_document f"
    and "is_field_unchanged m self (name f) = Inr changed"
    and "ignore_unchanged opts \<longrightarrow> changed"
    and "getattr m self (name f) = Inr a"
    and "get_value f a (Some opts) = Inr v"
  shows "r' (db_column_name f) =
           (if v = PyNone \<and> ignore_default_none opts \<and> \<not> changed then r (db_column_name f)
            else Some v)"
  using assms(1-3)
proof (induction fs arbitrary: r)
  case Nil
  then show ?case by simp
next
  case (Cons g gs)
  show ?case
  proof (cases "g = f")
    case True
    from Cons.prems(3) True have notin: "db_column_name f \<notin> db_column_name ` set gs" by auto
    show ?thesis
    proof (cases "v = PyNone \<and> ignore_default_none opts \<and> \<not> changed")
      case excl: True
      with Cons.prems(1) True assms(4-8)
      have "to_db_dict_loop m self opts gs r = Inr r'" by (auto split: if_splits)
      from to_db_dict_loop_other [OF this notin] excl show ?thesis by simp
    next
      case incl: False
      with Cons.prems(1) True assms(4-8)
      have "to_db_dict_loop m self opts gs (r(db_column_name f \<mapsto> v)) = Inr r'"
        by (auto split: if_splits)
      from to_db_dict_loop_other [OF this notin] have "r' (db_column_name f) = Some v" by simp
      with incl show ?thesis by auto
    qed
  next
    case False
    with Cons.prems have f: "f \<in> set gs" and d: "distinct (map db_column_name gs)"
      and ne: "db_column_name g \<noteq> db_column_name f" by auto
    from Cons.prems(1) consider
        "to_db_dict_loop m self opts gs r = Inr r'"
      | w where "to_db_dict_loop m self opts gs (r(db_column_name g \<mapsto> w)) = Inr r'"
      by (auto split: if_splits sum.splits)
    then show ?thesis
    proof cases
      case 1
      from Cons.IH [OF this f d] show ?thesis .
    next
      case 2
      from Cons.IH [OF this f d] ne show ?thesis by simp
    qed
  qed
qed

lemma edited_post_dump:
  "to_db_dict post_meta edited_post \<lparr>ignore_unchanged = True, ignore_default_none = True\<rparr>
     = Inr [''title'' \<mapsto> PyNone, ''updated'' \<mapsto> PyNone]"
  by (simp add: to_db_dict_def fixture_defs eval_defs)

lemma loaded_post_dump:
  "to_db_dict post_meta loaded_post \<lparr>ignore_unchanged = False, ignore_default_none = True\<rparr>
     = Inr [''tags'' \<mapsto> PyList [PyStr ''a''], ''updated'' \<mapsto> PyNone]"
  by (simp add: to_db_dict_def fixture_defs eval_defs)

text \<open>
  \<^bold>\<open>C5\<close>. Let a declared field \<open>f\<close> pass the identifier filter and the
  \<^verbatim>\<open>ignore_unchanged\<close> filter (\<open>changed\<close> is what \<^verbatim>\<open>_is_field_unchanged\<close> returns for
  it), and let \<open>v\<close> be its encoded value. Then \<^verbatim>\<open>to_db_dict\<close> stores \<open>v\<close> under the
  field's column unless \<open>v\<close> is \<^verbatim>\<open>None\<close>, \<^verbatim>\<open>ignore_default_none\<close> is set and \<open>changed\<close> is
  false; a field in the set of changed attributes is stored even when \<open>v\<close> is
  \<^verbatim>\<open>None\<close>. Columns are taken to be distinct, so no other field writes the entry.
\<close>

theorem to_db_dict_inclusion:
  assumes "to_db_dict m self opts = Inr result"
    and "f \<in> set (field_list m)" and "distinct (map db_column_name (field_list m))"
    and "cls f = IDField \<longrightarrow> include_in_document f"
    and "is_field_unchanged m self (name f) = Inr changed"
    and "ignore_unchanged opts \<longrightarrow> changed"
    and "get_value f (getattr_default self (name f)) (Some opts) = Inr v"
  shows "(result (db_column_name f) = Some v)
           = (\<not> (v = PyNone \<and> ignore_default_none opts \<and> \<not> changed))
         \<and> (name f \<in> field_changed self \<longrightarrow> result (db_column_name f) = Some v)"
proof -
  from assms(2) have "name f \<in> field_names m" by (simp add: field_names_def)
  then have ga: "getattr m self (name f) = Inr (getattr_default self (name f))"
    by (rule getattr_declared)
  from assms(1) have "to_db_dict_loop m self opts (field_list m) Map.empty = Inr result"
    by (simp add: to_db_dict_def)
  from to_db_dict_loop_entry [OF this assms(2-6) ga assms(7)]
  have r: "result (db_column_name f) =
             (if v = PyNone \<and> ignore_default_none opts \<and> \<not> changed then None else Some v)"
    by simp
  have "name f \<in> field_changed self \<Longrightarrow> changed"
    using assms(5) by (simp add: is_field_unchanged_def)
  with r show ?thesis by auto
qed

theorem to_db_dict_inclusion_witness:
  "to_db_dict post_meta edited_post \<lparr>ignore_unchanged = True, ignore_default_none = True\<rparr>
     = Inr [''title'' \<mapsto> PyNone, ''updated'' \<mapsto> PyNone]
   \<and> simple_field ''title'' OtherField \<in> set (field_list post_meta)
   \<and> distinct (map db_column_name (field_list post_meta))
   \<and> is_field_unchanged post_meta edited_post ''title'' = Inr True
   \<and> ''title'' \<in> field_changed edited_post
   \<and> [''title'' \<mapsto> PyNone, ''updated'' \<mapsto> PyNone] ''title'' = Some PyNone"
proof -
  let ?f = "simple_field ''title'' OtherField"
  let ?opts = "\<lparr>ignore_unchanged = True, ignore_default_none = True\<rparr>"
  have f: "?f \<in> set (field_list post_meta)" by (simp add: fixture_defs)
  have d: "distinct (map db_column_name (field_list post_meta))" by (simp add: fixture_defs)
  have i: "cls ?f = IDField \<longrightarrow> include_in_document ?f" by (simp add: fixture_defs)
  have c: "is_field_unchanged post_meta edited_post (name ?f) = Inr True"
    by (simp add: fixture_defs eval_defs)
  have u: "ignore_unchanged ?opts \<longrightarrow> True" by simp
  have v: "get_value ?f (getattr_default edited_post (name ?f)) (Some ?opts) = Inr PyNone"
    by (simp add: fixture_defs eval_defs)
  from to_db_dict_inclusion [OF edited_post_dump f d i c u v] edited_post_dump f d c
  show ?thesis by (simp add: simple_field_def edited_post_def)
qed

text \<open>
  \<^bold>\<open>C9\<close>. Whatever the dump options, every entry of the result of \<^verbatim>\<open>to_db_dict\<close> was
  written for a declared field that is not an \<^verbatim>\<open>IDField\<close> or has
  \<^verbatim>\<open>include_in_document\<close> set: an identifier field that is not marked for inclusion
  never contributes an entry.
\<close>

theorem to_db_dict_identifier_excluded:
  assumes "to_db_dict m self opts = Inr result" and "result k = Some v"
  shows "\<exists>f \<in> set (field_list m). db_column_name f = k \<and> (cls f = IDField \<longrightarrow> include_in_document f)"
  using to_db_dict_loop_origin [of m self opts "field_list m" Map.empty result k v] assms
  by (simp add: to_db_dict_def)

theorem to_db_dict_identifier_excluded_witness:
  "to_db_dict post_meta loaded_post \<lparr>ignore_unchanged = False, ignore_default_none = True\<rparr>
     = Inr [''tags'' \<mapsto> PyList [PyStr ''a''], ''updated'' \<mapsto> PyNone]
   \<and> [''tags'' \<mapsto> PyList [PyStr ''a''], ''updated'' \<mapsto> PyNone] ''tags'' = Some (PyList [PyStr ''a''])
   \<and> (\<exists>f \<in> set (field_list post_meta). db_column_name f = ''tags''
          \<and> (cls f = IDField \<longrightarrow> include_in_document f))"
proof -
  have r: "[''tags'' \<mapsto> PyList [PyStr ''a''], ''updated'' \<mapsto> PyNone] ''tags''
             = Some (PyList [PyStr ''a''])"
    by simp
  from to_db_dict_identifier_excluded [OF loaded_post_dump r] loaded_post_dump r
  show ?thesis by blast
qed

subsection \<open>Loading\<close>

text \<open>One iteration of the loop of \<^verbatim>\<open>populate_from_doc_dict\<close>, by cases.\<close>

lemma populate_fields_Cons:
  assumes "populate_fields m doc stored merging bcn (f # fs) self = Inr self'"
  obtains "populate_fields m doc stored merging bcn fs self = Inr self'"
      and "map_of doc (if bcn then db_column_name f else name f) = None"
  | v self1 where "stored" "set_orig_attr m self (name f) v = Inr self1"
      "populate_fields m doc stored merging bcn fs self1 = Inr self'"
  | v self1 where "\<not> stored" "setattr m self (name f) v = Inr self1"
      "populate_fields m doc stored merging bcn fs self1 = Inr self'"
  using assms by (auto simp: Let_def split: if_splits sum.splits)

lemma populate_fields_grows:
  "populate_fields m doc stored merging bcn fs self = Inr self' \<Longrightarrow>
     field_changed self \<subseteq> field_changed self' \<and> field_changed self' \<subseteq> field_changed self \<union> field_names m
     \<and> extra_fields self \<subseteq> extra_fields self' \<and> dom (attrs self) \<subseteq> dom (attrs self')"
proof (induction fs arbitrary: self)
  case Nil
  then show ?case by simp
next
  case (Cons f fs)
  from Cons.prems show ?case
  proof (cases rule: populate_fields_Cons)
    case 1
    then show ?thesis using Cons.IH by blast
  next
    case (2 v self1)
    from set_orig_attr_grows [OF 2(2)] Cons.IH [OF 2(3)] show ?thesis by blast
  next
    case (3 v self1)
    from setattr_grows [OF 3(2)] Cons.IH [OF 3(3)] show ?thesis by blast
  qed
qed

lemma populate_fields_stored_changed:
  "populate_fields m doc True merging bcn fs self = Inr self' \<Longrightarrow>
     ''_id'' \<notin> name ` set fs \<Longrightarrow> field_changed self' = field_changed self"
proof (induction fs arbitrary: self)
  case Nil
  then show ?case by simp
next
  case (Cons f fs)
  from Cons.prems(2) have ne: "name f \<noteq> ''_id''" and rest: "''_id'' \<notin> name ` set fs" by auto
  from Cons.prems(1) show ?case
  proof (cases rule: populate_fields_Cons)
    case 1
    then show ?thesis using Cons.IH rest by blast
  next
    case (2 v self1)
    from set_orig_attr_not_id [OF 2(2) ne] have "field_changed self1 = field_changed self"
      by simp
    with Cons.IH [OF 2(3) rest] show ?thesis by simp
  next
    case (3 v self1)
    then show ?thesis by simp
  qed
qed

lemma populate_fields_sets:
  assumes "populate_fields m doc stored merging bcn fs self = Inr self'"
    and "f \<in> set fs" and "name f \<noteq> ''_id''"
    and "map_of doc (if bcn then db_column_name f else name f) \<noteq> None"
  shows "attrs self' (name f) \<noteq> None
         \<and> (stored \<and> name f \<notin> field_names m \<longrightarrow> name f \<in> extra_fields self')"
  using assms(1,2)
proof (induction fs arbitrary: self)
  case Nil
  then show ?case by simp
next
  case (Cons g gs)
  show ?case
  proof (cases "g = f")
    case True
    from Cons.prems(1) [unfolded True] show ?thesis
    proof (cases rule: populate_fields_Cons)
      case 1
      with assms(4) show ?thesis by simp
    next
      case (2 v self1)
      from set_orig_attr_not_id [OF 2(2) assms(3)] have "attrs self1 (name f) \<noteq> None
           \<and> (name f \<notin> field_names m \<longrightarrow> name f \<in> extra_fields self1)"
        by simp
      with populate_fields_grows [OF 2(3)] show ?thesis by auto
    next
      case (3 v self1)
      from setattr_not_id [OF 3(2) assms(3)] have "attrs self1 (name f) \<noteq> None"
        by simp
      with populate_fields_grows [OF 3(3)] 3(1) show ?thesis by auto
    qed
  next
    case False
    with Cons.prems(2) have f: "f \<in> set gs" by simp
    from Cons.prems(1) show ?thesis
      by (cases rule: populate_fields_Cons) (use Cons.IH f in blast)+
  qed
qed

lemma populate_fields_total:
  "\<forall>f \<in> set fs. ordinary_name (name f)
      \<and> (\<forall>self0. \<exists>v.
            field_value f
              (case map_of doc (if bcn then db_column_name f else name f) of
                 Some v \<Rightarrow> v | None \<Rightarrow> PyNone)
              \<lparr>lo_model = self0, lo_stored = stored, lo_merge = merging,
               lo_by_column_name = bcn\<rparr> = Inr v) \<Longrightarrow>
     \<exists>self'. populate_fields m doc stored merging bcn fs self = Inr self'"
proof (induction fs arbitrary: self)
  case Nil
  then show ?case by simp
next
  case (Cons f fs)
  let ?k = "if bcn then db_column_name f else name f"
  let ?raw = "case map_of doc ?k of Some v \<Rightarrow> v | None \<Rightarrow> PyNone"
  let ?lo = "\<lparr>lo_model = self, lo_stored = stored, lo_merge = merging, lo_by_column_name = bcn\<rparr>"
  from Cons.prems have o: "ordinary_name (name f)"
    and "\<exists>v. field_value f ?raw ?lo = Inr v"
    by simp_all
  then obtain v where v: "field_value f ?raw ?lo = Inr v" by blast
  from Cons.prems have rest:
    "\<forall>f \<in> set fs. ordinary_name (name f)
      \<and> (\<forall>self0. \<exists>v.
            field_value f
              (case map_of doc (if bcn then db_column_name f else name f) of
                 Some v \<Rightarrow> v | None \<Rightarrow> PyNone)
              \<lparr>lo_model = self0, lo_stored = stored, lo_merge = merging,
               lo_by_column_name = bcn\<rparr> = Inr v)"
    by simp
  from setattr_ordinary [OF o] set_orig_attr_ordinary [OF o] have "\<exists>self1.
      (if stored then set_orig_attr m self (name f) v else setattr m self (name f) v) = Inr self1"
    by simp
  then obtain self1 where s1:
    "(if stored then set_orig_attr m self (name f) v else setattr m self (name f) v) = Inr self1"
    by blast
  show ?case
  proof (cases "map_of doc ?k \<noteq> None \<or> (\<not> merging \<and> getattr_default self (name f) \<noteq> PyNone)")
    case True
    with v s1 have "populate_fields m doc stored merging bcn (f # fs) self
        = populate_fields m doc stored merging bcn fs self1"
      by (simp add: Let_def)
    with Cons.IH [OF rest, of self1] show ?thesis by simp
  next
    case False
    then have "populate_fields m doc stored merging bcn (f # fs) self
        = populate_fields m doc stored merging bcn fs self"
      by (auto simp: Let_def)
    with Cons.IH [OF rest, of self] show ?thesis by simp
  qed
qed

text \<open>
  The setters raise \<^verbatim>\<open>AttributeError\<close>, \<^verbatim>\<open>TypeError\<close> and the like, never the error
  for unknown fields; inside the loop only a descriptor can raise that one.
\<close>

lemma object_setattr_not_unknown_fields:
  "object_setattr m self k v \<noteq> Inl (NotImplementedError S)"
  by (auto simp: object_setattr_def id_set_def setattr_plain_def store_attr_def set_key_def
      join_key_def strip_slash_def split: sum.splits pyval.splits list.splits)

lemma populate_fields_unknown_fields:
  "populate_fields m doc stored merging bcn fs self = Inl (NotImplementedError S) \<Longrightarrow>
     \<exists>f \<in> set fs. \<exists>raw lo. field_value f raw lo = Inl (NotImplementedError S)"
proof (induction fs arbitrary: self)
  case Nil
  then show ?case by simp
next
  case (Cons f fs)
  let ?k = "if bcn then db_column_name f else name f"
  let ?raw = "case map_of doc ?k of Some v \<Rightarrow> v | None \<Rightarrow> PyNone"
  let ?lo = "\<lparr>lo_model = self, lo_stored = stored, lo_merge = merging, lo_by_column_name = bcn\<rparr>"
  from Cons.prems
    object_setattr_not_unknown_fields [of m _ "name f" _ S]
  consider "field_value f ?raw ?lo = Inl (NotImplementedError S)"
    | self1 where "populate_fields m doc stored merging bcn fs self1 = Inl (NotImplementedError S)"
    by (auto simp: Let_def setattr_def set_orig_attr_def split: if_splits sum.splits)
  then show ?case
  proof cases
    case 1
    then show ?thesis by auto
  next
    case 2
    from Cons.IH [OF this] show ?thesis by auto
  qed
qed

lemma populate_fields_frame:
  "populate_fields m doc stored merging bcn fs self = Inr self' \<Longrightarrow>
     ''_id'' \<notin> name ` set fs \<Longrightarrow> n \<notin> name ` set fs \<Longrightarrow> attrs self' n = attrs self n"
proof (induction fs arbitrary: self)
  case Nil
  then show ?case by simp
next
  case (Cons f fs)
  from Cons.prems(2,3) have ne: "name f \<noteq> ''_id''" "name f \<noteq> n"
    and rest: "''_id'' \<notin> name ` set fs" "n \<notin> name ` set fs" by auto
  from Cons.prems(1) show ?case
  proof (cases rule: populate_fields_Cons)
    case 1
    then show ?thesis using Cons.IH rest by blast
  next
    case (2 v self1)
    from set_orig_attr_not_id [OF 2(2) ne(1)] ne have "attrs self1 n = attrs self n"
      by simp
    with Cons.IH [OF 2(3) rest] show ?thesis by simp
  next
    case (3 v self1)
    from setattr_not_id [OF 3(2) ne(1)] ne have "attrs self1 n = attrs self n"
      by simp
    with Cons.IH [OF 3(3) rest] show ?thesis by simp
  qed
qed

lemma populate_merge_fields:
  "populate_from_doc_dict m self doc stored True bcn = Inr self' \<Longrightarrow>
     populate_fields m doc stored True bcn (field_list m @ new_extra_fields m doc) self = Inr self'"
  by (auto simp: populate_from_doc_dict_def split: sum.splits if_splits)

lemma new_extra_fields_member:
  "k \<in> new_extra_fields_names m doc \<Longrightarrow> get_field_by_column_name m k = Some f \<Longrightarrow>
     f \<in> set (new_extra_fields m doc)"
  by (force simp: new_extra_fields_def new_extra_fields_names_def List.map_filter_def)

lemma drop_old_extra_fields_total:
  "\<forall>n \<in> extra_fields self - field_names m. attrs self n \<noteq> None \<Longrightarrow>
     \<exists>self1. drop_old_extra_fields m self = Inr self1"
  by (simp add: drop_old_extra_fields_def Let_def)

lemma to_db_dict_loop_filtered:
  "to_db_dict_loop m self opts fs r = Inr r' \<Longrightarrow> ignore_unchanged opts \<Longrightarrow> r' k = Some v \<Longrightarrow>
     r k = Some v \<or> (\<exists>f \<in> set fs. db_column_name f = k \<and> is_field_unchanged m self (name f) = Inr True)"
proof (induction fs arbitrary: r)
  case Nil
  then show ?case by simp
next
  case (Cons f fs)
  from Cons.prems(1,2) consider
      "to_db_dict_loop m self opts fs r = Inr r'"
    | w where "to_db_dict_loop m self opts fs (r(db_column_name f \<mapsto> w)) = Inr r'"
        "is_field_unchanged m self (name f) = Inr True"
    by (auto split: if_splits sum.splits)
  then show ?case
  proof cases
    case 1
    from Cons.IH [OF this Cons.prems(2,3)] show ?thesis by auto
  next
    case 2
    from Cons.IH [OF 2(1) Cons.prems(2,3)] 2(2) show ?thesis
      by (auto split: if_splits)
  qed
qed

lemma lookup_field_member:
  "distinct (map name (field_list m)) \<Longrightarrow> f \<in> set (field_list m) \<Longrightarrow> lookup_field m (name f) = Some f"
  by (simp add: lookup_field_def lookup_field_distinct)

lemma populate_replace_stored_changed:
  "populate_from_doc_dict m self doc True False bcn = Inr self' \<Longrightarrow> field_changed self' = {}"
  by (auto simp: populate_from_doc_dict_def split: sum.splits if_splits)

lemma map3_upd:
  "[''id'' \<mapsto> a, ''name'' \<mapsto> b, ''nick'' \<mapsto> c](''name'' \<mapsto> d) = [''id'' \<mapsto> a, ''name'' \<mapsto> d, ''nick'' \<mapsto> c]"
  by (auto simp: fun_eq_iff)

lemma new_user_load:
  "populate_from_doc_dict user_meta (new_user '''') [(''name'', PyStr ''Arfan'')] True False False
     = Inr stored_user"
  by (simp add: load_defs fixture_defs eval_defs stored_user_def Let_def)

lemma stored_user_dump:
  "to_db_dict user_meta stored_user \<lparr>ignore_unchanged = True, ignore_default_none = False\<rparr> = Inr Map.empty"
  by (simp add: to_db_dict_def fixture_defs eval_defs stored_user_def)

lemma tracked_user_merge_stored:
  "populate_from_doc_dict user_meta tracked_user [(''name'', PyStr ''Arfan'')] True True False
     = Inr merged_stored_user"
  by (simp add: load_defs fixture_defs eval_defs merged_stored_user_def Let_def map3_upd)

lemma nick_doc_extra: "new_extra_fields_names user_meta nick_doc = {''nick''}"
  by (auto simp: new_extra_fields_names_def nick_doc_def fixture_defs eval_defs)

lemma nick_doc_extra_open: "new_extra_fields_names open_user_meta nick_doc = {''nick''}"
  by (auto simp: new_extra_fields_names_def nick_doc_def fixture_defs eval_defs)

lemma post_load:
  "populate_from_doc_dict post_meta (new_user '''') post_doc True False False = Inr stored_post"
  by (simp add: load_defs fixture_defs eval_defs post_doc_def Let_def)

lemma stored_post_dump:
  "to_db_dict post_meta stored_post \<lparr>ignore_unchanged = True, ignore_default_none = False\<rparr>
     = Inr [''tags'' \<mapsto> PyList [PyStr ''a''], ''updated'' \<mapsto> PyNone]"
  by (simp add: to_db_dict_def fixture_defs eval_defs)

text \<open>
  \<^bold>\<open>C2\<close>, as amended. After \<^verbatim>\<open>populate_from_doc_dict(d, stored=True, merge=False)\<close> the set
  of changed attributes is empty, and a following \<^verbatim>\<open>to_db_dict\<close> with
  \<^verbatim>\<open>ignore_unchanged\<close> holds entries only for map, list and nested-model fields whose
  current value is not \<^verbatim>\<open>None\<close> and for \<^verbatim>\<open>DateTime\<close> fields with \<^verbatim>\<open>auto_update\<close>; so it
  is empty for a schema without such fields.
\<close>

theorem populate_stored_then_dump:
  assumes "populate_from_doc_dict m self doc True False bcn = Inr self'"
    and "distinct (map name (field_list m))"
  shows "field_changed self' = {}
         \<and> (\<forall>opts result k v.
               ignore_unchanged opts \<and> to_db_dict m self' opts = Inr result \<and> result k = Some v \<longrightarrow>
               (\<exists>f \<in> set (field_list m). db_column_name f = k
                  \<and> ((cls f \<in> {MapField, ListField, NestedModelField}
                         \<and> getattr_default self' (name f) \<noteq> PyNone)
                      \<or> (cls f = DateTime \<and> auto_update f))))"
proof (intro conjI allI impI)
  show c: "field_changed self' = {}"
    using assms(1) by (rule populate_replace_stored_changed)
  fix opts result k v
  assume a: "ignore_unchanged opts \<and> to_db_dict m self' opts = Inr result \<and> result k = Some v"
  then have "to_db_dict_loop m self' opts (field_list m) Map.empty = Inr result"
    by (simp add: to_db_dict_def)
  from to_db_dict_loop_filtered [OF this, of k v] a
  obtain f where f: "f \<in> set (field_list m)" "db_column_name f = k"
      "is_field_unchanged m self' (name f) = Inr True"
    by auto
  from lookup_field_member [OF assms(2) f(1)]
  have "is_field_unchanged m self' (name f) =
          Inr (name f \<in> field_changed self'
               \<or> (cls f \<in> {MapField, ListField, NestedModelField}
                    \<and> getattr_default self' (name f) \<noteq> PyNone)
               \<or> (cls f = DateTime \<and> auto_update f))"
    by (rule is_field_unchanged_declared)
  with f(3) c have "(cls f \<in> {MapField, ListField, NestedModelField}
                    \<and> getattr_default self' (name f) \<noteq> PyNone)
               \<or> (cls f = DateTime \<and> auto_update f)"
    by simp
  with f(1,2) show "\<exists>f \<in> set (field_list m). db_column_name f = k
                  \<and> ((cls f \<in> {MapField, ListField, NestedModelField}
                         \<and> getattr_default self' (name f) \<noteq> PyNone)
                      \<or> (cls f = DateTime \<and> auto_update f))"
    by blast
qed

text \<open>
  A user loaded from storage dumps to the empty dict; a post loaded with tags dumps
  its tags, a list field with a value, and its timestamp.
\<close>

theorem populate_stored_then_dump_witness:
  "populate_from_doc_dict user_meta (new_user '''') [(''name'', PyStr ''Arfan'')] True False False
     = Inr stored_user
   \<and> distinct (map name (field_list user_meta))
   \<and> field_changed stored_user = {}
   \<and> to_db_dict user_meta stored_user \<lparr>ignore_unchanged = True, ignore_default_none = False\<rparr>
       = Inr Map.empty
   \<and> populate_from_doc_dict post_meta (new_user '''') post_doc True False False = Inr stored_post
   \<and> distinct (map name (field_list post_meta))
   \<and> to_db_dict post_meta stored_post \<lparr>ignore_unchanged = True, ignore_default_none = False\<rparr>
       = Inr [''tags'' \<mapsto> PyList [PyStr ''a''], ''updated'' \<mapsto> PyNone]
   \<and> (\<exists>f \<in> set (field_list post_meta). db_column_name f = ''tags''
         \<and> ((cls f \<in> {MapField, ListField, NestedModelField}
                \<and> getattr_default stored_post (name f) \<noteq> PyNone)
             \<or> (cls f = DateTime \<and> auto_update f)))"
proof -
  let ?opts = "\<lparr>ignore_unchanged = True, ignore_default_none = False\<rparr>"
  let ?r = "[''tags'' \<mapsto> PyList [PyStr ''a''], ''updated'' \<mapsto> PyNone]"
  have d: "distinct (map name (field_list user_meta))" by (simp add: fixture_defs)
  have d': "distinct (map name (field_list post_meta))" by (simp add: fixture_defs)
  have r: "ignore_unchanged ?opts \<and> to_db_dict post_meta stored_post ?opts = Inr ?r
           \<and> ?r ''tags'' = Some (PyList [PyStr ''a''])"
    using stored_post_dump by simp
  from populate_stored_then_dump [OF post_load d'] r
  have "\<exists>f \<in> set (field_list post_meta). db_column_name f = ''tags''
         \<and> ((cls f \<in> {MapField, ListField, NestedModelField}
                \<and> getattr_default stored_post (name f) \<noteq> PyNone)
             \<or> (cls f = DateTime \<and> auto_update f))"
    by blast
  with populate_stored_then_dump [OF new_user_load d] new_user_load d stored_user_dump
    post_load d' stored_post_dump
  show ?thesis by blast
qed

text \<open>
  The claim as stated fails: a list field loaded from storage is written again, with
  the stored value, although nothing was assigned since the load.
\<close>

theorem populate_stored_then_dump_counterexample:
  "populate_from_doc_dict post_meta (new_user '''') post_doc True False False = Inr stored_post
   \<and> field_changed stored_post = {}
   \<and> is_field_unchanged post_meta stored_post ''tags'' = Inr True
   \<and> to_db_dict post_meta stored_post \<lparr>ignore_unchanged = True, ignore_default_none = False\<rparr>
       = Inr [''tags'' \<mapsto> PyList [PyStr ''a''], ''updated'' \<mapsto> PyNone]
   \<and> [''tags'' \<mapsto> PyList [PyStr ''a''], ''updated'' \<mapsto> PyNone] \<noteq> Map.empty
   \<and> get_value (simple_field ''tags'' ListField) PyNone
        (Some \<lparr>ignore_unchanged = True, ignore_default_none = False\<rparr>) \<noteq> Inr (PyList [PyStr ''a''])"
proof -
  have "[''tags'' \<mapsto> PyList [PyStr ''a''], ''updated'' \<mapsto> PyNone] ''tags'' \<noteq> Map.empty ''tags''"
    by simp
  then have ne: "[''tags'' \<mapsto> PyList [PyStr ''a''], ''updated'' \<mapsto> PyNone] \<noteq> Map.empty"
    by metis
  have c: "field_changed stored_post = {}"
    "is_field_unchanged post_meta stored_post ''tags'' = Inr True"
    "get_value (simple_field ''tags'' ListField) PyNone
       (Some \<lparr>ignore_unchanged = True, ignore_default_none = False\<rparr>) \<noteq> Inr (PyList [PyStr ''a''])"
    by (simp_all add: fixture_defs eval_defs)
  from post_load stored_post_dump ne c show ?thesis by blast
qed

text \<open>
  \<^bold>\<open>C3\<close>, as amended. \<^verbatim>\<open>populate_from_doc_dict\<close> with \<^verbatim>\<open>merge=True\<close> never removes a name
  from the set of changed attributes and adds declared names only; it never removes
  an extra attribute, neither from the set of extra fields nor from the instance.
  When no loaded field is called \<^verbatim>\<open>_id\<close>: with \<^verbatim>\<open>stored=True\<close> the set of changed
  attributes stays as it is, and an attribute that no loaded field names keeps its
  value.
\<close>

theorem populate_merge_frame:
  assumes "populate_from_doc_dict m self doc stored True bcn = Inr self'"
  shows "field_changed self \<subseteq> field_changed self'
         \<and> field_changed self' \<subseteq> field_changed self \<union> field_names m
         \<and> extra_fields self \<subseteq> extra_fields self'
         \<and> dom (attrs self) \<subseteq> dom (attrs self')
         \<and> (''_id'' \<notin> name ` set (field_list m @ new_extra_fields m doc) \<longrightarrow>
              (stored \<longrightarrow> field_changed self' = field_changed self)
              \<and> (\<forall>n. n \<notin> name ` set (field_list m @ new_extra_fields m doc) \<longrightarrow>
                     attrs self' n = attrs self n))"
proof -
  note l = populate_merge_fields [OF assms]
  from populate_fields_grows [OF l] populate_fields_frame [OF l]
    populate_fields_stored_changed [of m doc True bcn _ self self'] l
  show ?thesis by (cases stored) auto
qed

theorem populate_merge_frame_witness:
  "populate_from_doc_dict user_meta tracked_user [(''name'', PyStr ''Arfan'')] True True False
     = Inr merged_stored_user
   \<and> field_changed merged_stored_user = field_changed tracked_user
   \<and> extra_fields tracked_user \<subseteq> extra_fields merged_stored_user
   \<and> attrs merged_stored_user ''nick'' = attrs tracked_user ''nick''"
proof -
  have i: "''_id'' \<notin> name ` set (field_list user_meta
             @ new_extra_fields user_meta [(''name'', PyStr ''Arfan'')])"
    by (simp add: load_defs fixture_defs eval_defs)
  have n: "''nick'' \<notin> name ` set (field_list user_meta
             @ new_extra_fields user_meta [(''name'', PyStr ''Arfan'')])"
    by (simp add: load_defs fixture_defs eval_defs)
  from populate_merge_frame [OF tracked_user_merge_stored] i n tracked_user_merge_stored
  show ?thesis by blast
qed

text \<open>
  The claim as stated fails for \<^verbatim>\<open>stored=False\<close> (the default, as in
  \<^verbatim>\<open>merge_with_dict\<close>): the merged field is assigned through \<^verbatim>\<open>__setattr__\<close> and
  enters the set of changed attributes.
\<close>

theorem populate_merge_frame_counterexample:
  "populate_from_doc_dict user_meta tracked_user [(''name'', PyStr ''Arfan'')] False True False
     = Inr merged_user
   \<and> merge_with_dict user_meta tracked_user [(''name'', PyStr ''Arfan'')] False = Inr merged_user
   \<and> field_changed tracked_user = {}
   \<and> field_changed merged_user = {''name''}
   \<and> field_changed merged_user \<noteq> field_changed tracked_user"
  by (simp add: merge_with_dict_def load_defs fixture_defs eval_defs merged_user_def Let_def
      map3_upd)

text \<open>
  \<^bold>\<open>C7\<close>, as amended. Provided the old extra attributes can be deleted (or
  \<^verbatim>\<open>merge\<close> is set): if the document has keys outside the declared schema and
  \<^verbatim>\<open>by_column_name\<close> is not set, \<^verbatim>\<open>populate_from_doc_dict\<close> fails with the error that
  names exactly these keys; it fails with that error only then, unless a descriptor
  raises it. Below, the loaded fields are the declared fields and the descriptors
  that the registry resolved for the unknown keys. When the call returns, and no
  loaded field bears a name of the class's own state or methods, there were no
  unknown keys or \<^verbatim>\<open>by_column_name\<close> was set, and every unknown key that the registry
  resolved to a descriptor with an ordinary attribute name (not \<^verbatim>\<open>_id\<close>, not the
  read-only properties \<^verbatim>\<open>key\<close> and \<^verbatim>\<open>document_path\<close>, not a name of the class's own
  state or methods) and with its column in the document is an attribute of the
  instance; it is recorded in the set of extra fields when \<^verbatim>\<open>stored\<close> is set and the
  name is not a declared one. The call does return when there are no unknown keys or
  \<^verbatim>\<open>by_column_name\<close> is set, every loaded field has an ordinary name, and its
  descriptor decodes the value that the document gives it (\<^verbatim>\<open>None\<close> if it gives none).
\<close>

theorem populate_unknown_fields:
  assumes "merging \<or> (\<forall>n \<in> extra_fields self - field_names m. attrs self n \<noteq> None)"
  shows "(new_extra_fields_names m doc \<noteq> {} \<and> \<not> bcn \<longrightarrow>
            populate_from_doc_dict m self doc stored merging bcn
              = Inl (NotImplementedError (new_extra_fields_names m doc)))
         \<and> (\<forall>self'. populate_from_doc_dict m self doc stored merging bcn = Inr self'
                \<and> (\<forall>g \<in> set (field_list m @ new_extra_fields m doc).
                      name g \<notin> shadowing_names) \<longrightarrow>
              (new_extra_fields_names m doc = {} \<or> bcn)
              \<and> (\<forall>k f. k \<in> new_extra_fields_names m doc
                      \<and> get_field_by_column_name m k = Some f
                      \<and> map_of doc (db_column_name f) \<noteq> None
                      \<and> ordinary_name (name f) \<longrightarrow>
                    attrs self' (name f) \<noteq> None
                    \<and> (stored \<and> name f \<notin> field_names m \<longrightarrow> name f \<in> extra_fields self')))
         \<and> ((new_extra_fields_names m doc = {} \<or> bcn)
              \<and> (\<forall>f \<in> set (field_list m @ new_extra_fields m doc).
                    ordinary_name (name f)
                    \<and> (\<forall>self0. \<exists>v.
                          field_value f
                            (case map_of doc (if bcn then db_column_name f else name f) of
                               Some v \<Rightarrow> v | None \<Rightarrow> PyNone)
                            \<lparr>lo_model = self0, lo_stored = stored, lo_merge = merging,
                             lo_by_column_name = bcn\<rparr> = Inr v)) \<longrightarrow>
              (\<exists>self'. populate_from_doc_dict m self doc stored merging bcn = Inr self'))
         \<and> (\<forall>S. populate_from_doc_dict m self doc stored merging bcn
                    = Inl (NotImplementedError S)
                \<and> (\<forall>f \<in> set (field_list m @ new_extra_fields m doc). \<forall>raw lo.
                      field_value f raw lo \<noteq> Inl (NotImplementedError S)) \<longrightarrow>
              new_extra_fields_names m doc \<noteq> {} \<and> \<not> bcn \<and> S = new_extra_fields_names m doc)"
proof (intro conjI allI impI)
  let ?fs = "field_list m @ new_extra_fields m doc"
  from assms obtain self1 where
    s1: "(if \<not> merging then drop_old_extra_fields m self else Inr self) = Inr self1"
    using drop_old_extra_fields_total [of self m] by (cases merging) auto
  show fail: "populate_from_doc_dict m self doc stored merging bcn
                = Inl (NotImplementedError (new_extra_fields_names m doc))"
    if "new_extra_fields_names m doc \<noteq> {} \<and> \<not> bcn"
    using that s1 by (simp add: populate_from_doc_dict_def)
  show "\<exists>self'. populate_from_doc_dict m self doc stored merging bcn = Inr self'"
    if h: "(new_extra_fields_names m doc = {} \<or> bcn)
           \<and> (\<forall>f \<in> set ?fs.
                 ordinary_name (name f)
                 \<and> (\<forall>self0. \<exists>v.
                       field_value f
                         (case map_of doc (if bcn then db_column_name f else name f) of
                            Some v \<Rightarrow> v | None \<Rightarrow> PyNone)
                         \<lparr>lo_model = self0, lo_stored = stored, lo_merge = merging,
                          lo_by_column_name = bcn\<rparr> = Inr v))"
  proof -
    from h have t: "\<forall>f \<in> set ?fs.
                 ordinary_name (name f)
                 \<and> (\<forall>self0. \<exists>v.
                       field_value f
                         (case map_of doc (if bcn then db_column_name f else name f) of
                            Some v \<Rightarrow> v | None \<Rightarrow> PyNone)
                         \<lparr>lo_model = self0, lo_stored = stored, lo_merge = merging,
                          lo_by_column_name = bcn\<rparr> = Inr v)"
      by blast
    from populate_fields_total [OF t] obtain self2 where
      "populate_fields m doc stored merging bcn ?fs self1 = Inr self2" by blast
    with h s1 show ?thesis by (auto simp: populate_from_doc_dict_def)
  qed
  have only: "new_extra_fields_names m doc \<noteq> {} \<and> \<not> bcn \<and> S = new_extra_fields_names m doc"
    if u: "populate_from_doc_dict m self doc stored merging bcn = Inl (NotImplementedError S)
           \<and> (\<forall>f \<in> set ?fs. \<forall>raw lo. field_value f raw lo \<noteq> Inl (NotImplementedError S))"
    for S
  proof (rule ccontr)
    assume n: "\<not> (new_extra_fields_names m doc \<noteq> {} \<and> \<not> bcn
                   \<and> S = new_extra_fields_names m doc)"
    have "new_extra_fields_names m doc = {} \<or> bcn"
    proof (rule ccontr)
      assume "\<not> (new_extra_fields_names m doc = {} \<or> bcn)"
      then have c: "new_extra_fields_names m doc \<noteq> {} \<and> \<not> bcn" by simp
      from fail [OF c] u have "S = new_extra_fields_names m doc" by simp
      with c n show False by simp
    qed
    with u s1
    have "populate_fields m doc stored merging bcn ?fs self1 = Inl (NotImplementedError S)"
      by (auto simp: populate_from_doc_dict_def split: sum.splits if_splits)
    from populate_fields_unknown_fields [OF this] u show False by blast
  qed
  from only show "new_extra_fields_names m doc \<noteq> {}"
    if "populate_from_doc_dict m self doc stored merging bcn = Inl (NotImplementedError S)
        \<and> (\<forall>f \<in> set ?fs. \<forall>raw lo. field_value f raw lo \<noteq> Inl (NotImplementedError S))"
    for S
    using that by blast
  from only show "\<not> bcn"
    if "populate_from_doc_dict m self doc stored merging bcn = Inl (NotImplementedError S)
        \<and> (\<forall>f \<in> set ?fs. \<forall>raw lo. field_value f raw lo \<noteq> Inl (NotImplementedError S))"
    for S
    using that by blast
  from only show "S = new_extra_fields_names m doc"
    if "populate_from_doc_dict m self doc stored merging bcn = Inl (NotImplementedError S)
        \<and> (\<forall>f \<in> set ?fs. \<forall>raw lo. field_value f raw lo \<noteq> Inl (NotImplementedError S))"
    for S
    using that by blast
  fix self'
  assume r: "populate_from_doc_dict m self doc stored merging bcn = Inr self'
             \<and> (\<forall>g \<in> set ?fs. name g \<notin> shadowing_names)"
  show c: "new_extra_fields_names m doc = {} \<or> bcn"
  proof (rule ccontr)
    assume "\<not> (new_extra_fields_names m doc = {} \<or> bcn)"
    then have "new_extra_fields_names m doc \<noteq> {} \<and> \<not> bcn" by simp
    from fail [OF this] r show False by simp
  qed
  fix k f
  assume k: "k \<in> new_extra_fields_names m doc \<and> get_field_by_column_name m k = Some f
             \<and> map_of doc (db_column_name f) \<noteq> None \<and> ordinary_name (name f)"
  from r c s1 obtain self2 where
    s2: "populate_fields m doc stored merging bcn ?fs self1 = Inr self2"
    and e: "self' = (if \<not> merging \<and> stored then self2\<lparr>field_changed := {}\<rparr> else self2)"
    by (auto simp: populate_from_doc_dict_def split: sum.splits if_splits)
  from k c have bcn by auto
  from k new_extra_fields_member [of k m doc f] have f: "f \<in> set ?fs" by simp
  from k have ne: "name f \<noteq> ''_id''" by (simp add: ordinary_name_def)
  from k \<open>bcn\<close> have "map_of doc (if bcn then db_column_name f else name f) \<noteq> None"
    by simp
  from populate_fields_sets [OF s2 f ne this] e
  show "attrs self' (name f) \<noteq> None" by simp
  from populate_fields_sets [OF s2 f ne \<open>map_of doc (if bcn then db_column_name f else name f) \<noteq> None\<close>] e
  show "name f \<in> extra_fields self'" if "stored \<and> name f \<notin> field_names m"
    using that by simp
qed

theorem populate_unknown_fields_witness:
  "populate_from_doc_dict user_meta (new_user '''') nick_doc True False False
     = Inl (NotImplementedError {''nick''})
   \<and> populate_from_doc_dict open_user_meta (new_user '''') nick_doc True False True
     = Inr nick_user_stored
   \<and> get_field_by_column_name open_user_meta ''nick'' = Some (simple_field ''nick'' OtherField)
   \<and> attrs nick_user_stored ''nick'' \<noteq> None
   \<and> ''nick'' \<in> extra_fields nick_user_stored"
proof -
  let ?f = "simple_field ''nick'' OtherField"
  let ?fs = "field_list open_user_meta @ new_extra_fields open_user_meta nick_doc"
  have a: "False \<or> (\<forall>n \<in> extra_fields (new_user '''') - field_names user_meta.
                       attrs (new_user '''') n \<noteq> None)"
    by (simp add: fixture_defs)
  have c: "new_extra_fields_names user_meta nick_doc \<noteq> {} \<and> \<not> False"
    by (simp add: nick_doc_extra)
  from populate_unknown_fields [OF a, of nick_doc False True] c
  have strict: "populate_from_doc_dict user_meta (new_user '''') nick_doc True False False
                  = Inl (NotImplementedError {''nick''})"
    by (simp add: nick_doc_extra)
  have a': "False \<or> (\<forall>n \<in> extra_fields (new_user '''') - field_names open_user_meta.
                        attrs (new_user '''') n \<noteq> None)"
    by (simp add: fixture_defs)
  note inst = populate_unknown_fields [OF a', of nick_doc True True]
  have fs: "?fs = [simple_field ''id'' IDField, simple_field ''name'' OtherField, ?f]"
    by (simp add: load_defs fixture_defs eval_defs)
  have o: "\<forall>g \<in> set ?fs. ordinary_name (name g)"
    unfolding fs
    by (simp add: simple_field_def ordinary_name_def readonly_properties_def shadowing_names_def)
  then have sh: "\<forall>g \<in> set ?fs. name g \<notin> shadowing_names"
    by (simp add: ordinary_name_def)
  have dec: "\<forall>f \<in> set ?fs. \<forall>self0. \<exists>v.
               field_value f
                 (case map_of nick_doc (if True then db_column_name f else name f) of
                    Some v \<Rightarrow> v | None \<Rightarrow> PyNone)
                 \<lparr>lo_model = self0, lo_stored = True, lo_merge = False,
                  lo_by_column_name = True\<rparr> = Inr v"
    unfolding fs by (simp add: simple_field_def)
  from inst o dec
  have returns: "\<exists>self'. populate_from_doc_dict open_user_meta (new_user '''') nick_doc
                            True False True = Inr self'"
    by blast
  have loaded: "populate_from_doc_dict open_user_meta (new_user '''') nick_doc True False True
                  = Inr nick_user_stored"
    by (simp add: load_defs fixture_defs eval_defs Let_def)
  have r: "get_field_by_column_name open_user_meta ''nick'' = Some ?f"
    by (simp add: fixture_defs)
  have k: "''nick'' \<in> new_extra_fields_names open_user_meta nick_doc"
    by (simp add: nick_doc_extra_open)
  have d: "map_of nick_doc (db_column_name ?f) \<noteq> None"
    by (simp add: nick_doc_def simple_field_def)
  have n: "name ?f \<notin> field_names open_user_meta" "name ?f = ''nick''"
    by (simp_all add: fixture_defs eval_defs)
  have on: "ordinary_name (name ?f)"
    using o unfolding fs by simp
  from inst loaded sh
  have "\<forall>k f. k \<in> new_extra_fields_names open_user_meta nick_doc
            \<and> get_field_by_column_name open_user_meta k = Some f
            \<and> map_of nick_doc (db_column_name f) \<noteq> None
            \<and> ordinary_name (name f) \<longrightarrow>
          attrs nick_user_stored (name f) \<noteq> None
          \<and> (True \<and> name f \<notin> field_names open_user_meta \<longrightarrow>
               name f \<in> extra_fields nick_user_stored)"
    by blast
  with k r d on have "attrs nick_user_stored (name ?f) \<noteq> None
      \<and> (True \<and> name ?f \<notin> field_names open_user_meta \<longrightarrow>
           name ?f \<in> extra_fields nick_user_stored)"
    by blast
  with n
  have "attrs nick_user_stored ''nick'' \<noteq> None \<and> ''nick'' \<in> extra_fields nick_user_stored"
    by simp
  with strict loaded r returns show ?thesis by blast
qed

text \<open>
  The claim as stated fails in two ways. With \<^verbatim>\<open>stored=False\<close> (as in \<^verbatim>\<open>from_dict\<close>
  with \<^verbatim>\<open>by_column_name=True\<close>) the resolved extra field becomes an attribute, but
  only \<^verbatim>\<open>_set_orig_attr\<close> records extra fields, and it is not called. And a resolved
  column called \<^verbatim>\<open>key\<close>, which \<^verbatim>\<open>to_dict\<close> itself writes, cannot be loaded at all:
  \<^verbatim>\<open>key\<close> is a property without a setter.
\<close>

theorem populate_unknown_fields_counterexample:
  "get_field_by_column_name open_user_meta ''nick'' = Some (simple_field ''nick'' OtherField)
   \<and> populate_from_doc_dict open_user_meta (new_user '''') nick_doc False False True
       = Inr nick_user_unstored
   \<and> from_dict open_user_meta (Some nick_doc) True = Inr (Some nick_user_unstored)
   \<and> attrs nick_user_unstored ''nick'' = Some (PyStr ''az'')
   \<and> ''nick'' \<notin> extra_fields nick_user_unstored
   \<and> get_field_by_column_name open_user_meta ''key'' = Some (simple_field ''key'' OtherField)
   \<and> populate_from_doc_dict open_user_meta (new_user '''') key_doc True False True
       = Inl AttributeError"
proof -
  have i: "init open_user_meta [] '''' [] = Inr (new_user '''')"
    by (simp add: init_def fixture_defs eval_defs)
  have p: "populate_from_doc_dict open_user_meta (new_user '''') nick_doc False False True
             = Inr nick_user_unstored"
    by (simp add: load_defs fixture_defs eval_defs Let_def)
  have q: "populate_from_doc_dict open_user_meta (new_user '''') key_doc True False True
             = Inl AttributeError"
    by (simp add: load_defs fixture_defs eval_defs key_doc_def Let_def)
  from i p q show ?thesis
    by (simp add: from_dict_def) (simp add: fixture_defs)
qed

subsection \<open>Identifier and key\<close>

lemma id_get_None: "id_get m self = Inr (PyNone, self') \<Longrightarrow> self' = self"
  by (auto simp: id_get_def split: sum.splits if_splits)

lemma strip_slash_join:
  "p = [] \<or> hd p \<noteq> CHR ''/'' \<Longrightarrow>
     strip_slash (p @ ''/'' @ rest) = Inr ((if p = [] then [] else p @ ''/'') @ rest)"
  by (cases p) (auto simp: strip_slash_def)

lemma strip_slash_suffix:
  "\<exists>k. strip_slash (p @ ''/'' @ c @ ''/@temp_doc_id'') = Inr k \<and> suffix ''/@temp_doc_id'' k"
proof (cases p)
  case Nil
  have "suffix ''/@temp_doc_id'' (c @ ''/@temp_doc_id'')" by (rule suffix_appendI) simp
  with Nil show ?thesis by (simp add: strip_slash_def)
next
  case (Cons a q)
  have "suffix ''/@temp_doc_id'' ((q @ ''/'' @ c) @ ''/@temp_doc_id'')"
    and "suffix ''/@temp_doc_id'' (((a # q) @ ''/'' @ c) @ ''/@temp_doc_id'')"
    by (rule suffixI, simp)+
  with Cons show ?thesis by (simp add: strip_slash_def)
qed

lemma key_resolved:
  assumes "priv_key self = None \<or> priv_key self = Some []"
    and "id_get m self = Inr (PyStr s, self')"
  shows "key m self =
           (case strip_slash (parent self @ ''/'' @ collection_name m @ ''/'' @ s) of
              Inl x \<Rightarrow> Inl x | Inr k \<Rightarrow> Inr (Some k, self'))"
  using assms by (auto simp: key_def key_try_def join_key_def split: sum.splits)

lemma key_placeholder:
  assumes "priv_key self = None \<or> priv_key self = Some []"
    and "id_get m self = Inr (PyNone, self) \<or> id_get m self = Inl RequiredField"
  shows "key m self =
           (case strip_slash (parent self @ ''/'' @ collection_name m @ ''/@temp_doc_id'') of
              Inl x \<Rightarrow> Inl x | Inr k \<Rightarrow> Inr (Some k, self))"
  using assms by (auto simp: key_def key_try_def join_key_def split: sum.splits)

lemma set_key_string:
  "parent self = [] \<or> hd (parent self) \<noteq> CHR ''/'' \<Longrightarrow>
     set_key m self (PyStr s) =
       Inr (self\<lparr>priv_key := Some ((if parent self = [] then [] else parent self @ ''/'')
                                     @ collection_name m @ ''/'' @ s)\<rparr>)"
  using strip_slash_join [of "parent self" "collection_name m @ ''/'' @ s"]
  by (simp add: set_key_def join_key_def)

lemmas key_defs = key_def key_try_def id_get_def join_key_def strip_slash_def

lemma user_u1_id: "id_get user_meta (user_u1 p) = Inr (PyStr ''u1'', user_u1 p)"
  by (simp add: key_defs fixture_defs eval_defs)

lemma new_user_id: "id_get user_meta (new_user p) = Inr (PyNone, new_user p)"
  by (simp add: key_defs fixture_defs eval_defs)

text \<open>
  \<^bold>\<open>C6\<close>. When no key is cached, the property \<^verbatim>\<open>key\<close> composes the key. With an
  identifier \<open>s\<close> it is \<open>parent/collection_name/s\<close>, and \<open>collection_name/s\<close> when
  the parent is empty (the parent is taken not to start with a separator itself);
  \<^verbatim>\<open>_set_key\<close> composes the cached key in the same way. When the identifier is
  \<^verbatim>\<open>None\<close> or its descriptor raises \<^verbatim>\<open>RequiredField\<close>, the computation does not fail:
  the key ends in the segment \<^verbatim>\<open>@temp_doc_id\<close>.
\<close>

theorem key_composition:
  assumes "priv_key self = None \<or> priv_key self = Some []"
  shows "(\<forall>s self'. id_get m self = Inr (PyStr s, self')
              \<and> (parent self = [] \<or> hd (parent self) \<noteq> CHR ''/'') \<longrightarrow>
            key m self =
              Inr (Some ((if parent self = [] then [] else parent self @ ''/'')
                           @ collection_name m @ ''/'' @ s), self'))
         \<and> ((\<exists>self'. id_get m self = Inr (PyNone, self')) \<or> id_get m self = Inl RequiredField \<longrightarrow>
              (\<exists>k. key m self = Inr (Some k, self) \<and> suffix ''/@temp_doc_id'' k
                 \<and> (parent self = [] \<or> hd (parent self) \<noteq> CHR ''/'' \<longrightarrow>
                      k = (if parent self = [] then [] else parent self @ ''/'')
                            @ collection_name m @ ''/@temp_doc_id'')))
         \<and> (\<forall>s. parent self = [] \<or> hd (parent self) \<noteq> CHR ''/'' \<longrightarrow>
              set_key m self (PyStr s) =
                Inr (self\<lparr>priv_key := Some ((if parent self = [] then [] else parent self @ ''/'')
                                              @ collection_name m @ ''/'' @ s)\<rparr>))"
proof (intro conjI allI impI)
  fix s self'
  assume a: "id_get m self = Inr (PyStr s, self')
             \<and> (parent self = [] \<or> hd (parent self) \<noteq> CHR ''/'')"
  then have "strip_slash (parent self @ ''/'' @ collection_name m @ ''/'' @ s)
               = Inr ((if parent self = [] then [] else parent self @ ''/'')
                        @ collection_name m @ ''/'' @ s)"
    using strip_slash_join [of "parent self" "collection_name m @ ''/'' @ s"] by simp
  with key_resolved [OF assms, of m s self'] a
  show "key m self =
          Inr (Some ((if parent self = [] then [] else parent self @ ''/'')
                       @ collection_name m @ ''/'' @ s), self')"
    by simp
next
  assume "(\<exists>self'. id_get m self = Inr (PyNone, self')) \<or> id_get m self = Inl RequiredField"
  then have u: "id_get m self = Inr (PyNone, self) \<or> id_get m self = Inl RequiredField"
    using id_get_None by blast
  let ?k0 = "parent self @ ''/'' @ collection_name m @ ''/@temp_doc_id''"
  from strip_slash_suffix [of "parent self" "collection_name m"]
  obtain k where k: "strip_slash ?k0 = Inr k" "suffix ''/@temp_doc_id'' k" by blast
  from key_placeholder [OF assms u] k(1) have r: "key m self = Inr (Some k, self)" by simp
  have "k = (if parent self = [] then [] else parent self @ ''/'')
               @ collection_name m @ ''/@temp_doc_id''"
    if "parent self = [] \<or> hd (parent self) \<noteq> CHR ''/''"
    using strip_slash_join [OF that, of "collection_name m @ ''/@temp_doc_id''"] k(1) by simp
  with r k(2)
  show "\<exists>k. key m self = Inr (Some k, self) \<and> suffix ''/@temp_doc_id'' k
          \<and> (parent self = [] \<or> hd (parent self) \<noteq> CHR ''/'' \<longrightarrow>
               k = (if parent self = [] then [] else parent self @ ''/'')
                     @ collection_name m @ ''/@temp_doc_id'')"
    by blast
next
  fix s
  assume "parent self = [] \<or> hd (parent self) \<noteq> CHR ''/''"
  then show "set_key m self (PyStr s) =
               Inr (self\<lparr>priv_key := Some ((if parent self = [] then [] else parent self @ ''/'')
                                             @ collection_name m @ ''/'' @ s)\<rparr>)"
    by (rule set_key_string)
qed

text \<open>The examples of the specification: \<^verbatim>\<open>a/users/u1\<close>, \<^verbatim>\<open>users/u1\<close>, \<^verbatim>\<open>users/@temp_doc_id\<close>.\<close>

theorem key_composition_witness:
  "key user_meta (user_u1 ''a'') = Inr (Some ''a/users/u1'', user_u1 ''a'')
   \<and> key user_meta (user_u1 '''') = Inr (Some ''users/u1'', user_u1 '''')
   \<and> key user_meta (new_user '''') = Inr (Some ''users/@temp_doc_id'', new_user '''')"
proof -
  have c: "priv_key (user_u1 p) = None \<or> priv_key (user_u1 p) = Some []" for p
    by (simp add: user_u1_def)
  have c': "priv_key (new_user '''') = None \<or> priv_key (new_user '''') = Some []"
    by (simp add: new_user_def)
  from key_composition [where self = "user_u1 ''a''" and m = user_meta, OF c] user_u1_id [of "''a''"]
  have 1: "key user_meta (user_u1 ''a'') = Inr (Some ''a/users/u1'', user_u1 ''a'')"
    by (simp add: user_u1_def user_meta_def)
  from key_composition [where self = "user_u1 ''''" and m = user_meta, OF c] user_u1_id [of "''''"]
  have 2: "key user_meta (user_u1 '''') = Inr (Some ''users/u1'', user_u1 '''')"
    by (simp add: user_u1_def user_meta_def)
  from key_composition [where self = "new_user ''''" and m = user_meta, OF c'] new_user_id [of "''''"]
  have 3: "key user_meta (new_user '''') = Inr (Some ''users/@temp_doc_id'', new_user '''')"
    by (auto simp: new_user_def user_meta_def)
  from 1 2 3 show ?thesis by blast
qed

subsection \<open>\<^verbatim>\<open>update\<close> and \<^verbatim>\<open>refresh\<close>\<close>

text \<open>
  The property \<^verbatim>\<open>key\<close> never returns \<^verbatim>\<open>None\<close>: it returns the cached key only when
  that is a non-empty string, and a composed string otherwise. So \<^verbatim>\<open>refresh\<close> never
  raises its \<^verbatim>\<open>ValueError\<close>, and \<^verbatim>\<open>update\<close> raises \<^verbatim>\<open>InvalidKey\<close> only if the
  identifier descriptor or the manager does.
\<close>

lemma key_not_None: "key m self \<noteq> Inr (None, self')"
  by (auto simp: key_def split: option.splits sum.splits prod.splits if_splits)

lemma refresh_delegates:
  "refresh mgr m self transaction =
     (case key m self of Inl x \<Rightarrow> Inl x | Inr (k, self1) \<Rightarrow> mgr_refresh mgr self1 transaction)"
  using key_not_None [of m self]
  by (auto simp: refresh_def split: sum.splits option.splits)

lemma new_user_key:
  "key user_meta (new_user '''') = Inr (Some ''users/@temp_doc_id'', new_user '''')"
  by (simp add: key_defs fixture_defs eval_defs)

lemma update_InvalidKey_unreachable:
  assumes "update u mgr m self key_arg transaction batch = Inl InvalidKey"
  shows "key m self = Inl InvalidKey
         \<or> (\<exists>self'. mgr_update mgr self' transaction batch = Inl InvalidKey)"
proof -
  have sk: "set_key m s d \<noteq> Inl InvalidKey" for s d
    by (auto simp: set_key_def join_key_def strip_slash_def split: sum.splits pyval.splits list.splits)
  have sa: "setattr m s k v \<noteq> Inl InvalidKey" for s k v
    using sk
    by (auto simp: setattr_def object_setattr_def id_set_def setattr_plain_def store_attr_def
        split: sum.splits)
  have uc: "update_check u m s (Some k) \<noteq> Inl InvalidKey" for s k
    using sa by (auto simp: update_check_def)
  let ?first = "if key_arg = None \<or> key_arg = Some [] then key m self else Inr (key_arg, self)"
  show ?thesis
  proof (cases ?first)
    case (Inl x)
    with assms have "x = InvalidKey" by (simp add: update_def)
    with Inl show ?thesis by (auto split: if_splits)
  next
    case (Inr r)
    obtain k self1 where r: "r = (k, self1)" by (cases r)
    from Inr r key_not_None [of m self self1] obtain ks where ks: "k = Some ks"
      by (cases k) (auto split: if_splits)
    from assms Inr r ks uc [of self1 ks] show ?thesis
      by (auto simp: update_def split: sum.splits)
  qed
qed

text \<open>
  \<^bold>\<open>C1\<close>. The claim is that \<^verbatim>\<open>update()\<close> without a key argument fails with
  \<^verbatim>\<open>InvalidKey\<close> when the key of the instance contains \<^verbatim>\<open>@temp_doc_id\<close>. The code
  does not: for a user that was never saved, whose key is \<^verbatim>\<open>users/@temp_doc_id\<close>,
  \<^verbatim>\<open>update\<close> returns what the manager's \<^verbatim>\<open>_update\<close> returns, for every manager.
\<close>

theorem update_unsaved_delegates:
  "key user_meta (new_user '''') = Inr (Some ''users/@temp_doc_id'', new_user '''')
   \<and> sublist ''@temp_doc_id'' ''users/@temp_doc_id''
   \<and> update u mgr user_meta (new_user '''') None transaction batch
       = mgr_update mgr (new_user '''') transaction batch"
proof -
  have k: "key user_meta (new_user '''') = Inr (Some ''users/@temp_doc_id'', new_user '''')"
    by (rule new_user_key)
  have s: "sublist ''@temp_doc_id'' ''users/@temp_doc_id''"
    by (simp add: sublist_code(3))
  from k s show ?thesis by (simp add: update_def update_check_def)
qed

text \<open>
  \<^bold>\<open>C8\<close>. When the property \<^verbatim>\<open>key\<close> yields \<^verbatim>\<open>None\<close>, \<^verbatim>\<open>refresh\<close> fails with the
  \<^verbatim>\<open>ValueError\<close> of the message \<^verbatim>\<open>Model must have key to refresh\<close>; when it yields a
  key, \<^verbatim>\<open>refresh\<close> raises nothing of its own and returns what the manager's
  \<^verbatim>\<open>_refresh\<close> returns for the instance. By \<open>key_not_None\<close> the property yields a
  key whenever it returns, the placeholder key included, so the first case is the
  guard of the source and no instance meets it.
\<close>

theorem refresh_missing_key_or_delegates:
  "(\<forall>self1. key m self = Inr (None, self1) \<longrightarrow>
      refresh mgr m self transaction = Inl ValueError)
   \<and> (\<forall>k self1. key m self = Inr (Some k, self1) \<longrightarrow>
        refresh mgr m self transaction = mgr_refresh mgr self1 transaction)"
  by (simp add: refresh_def)

text \<open>A user with a cached key, and one that was never saved, are both handed to the manager.\<close>

theorem refresh_missing_key_or_delegates_witness:
  "key user_meta tracked_user = Inr (Some ''users/u1'', tracked_user)
   \<and> refresh echo_manager user_meta tracked_user PyNone = Inr tracked_user
   \<and> key user_meta (new_user '''') = Inr (Some ''users/@temp_doc_id'', new_user '''')
   \<and> refresh echo_manager user_meta (new_user '''') PyNone = Inr (new_user '''')"
proof -
  have k: "key user_meta tracked_user = Inr (Some ''users/u1'', tracked_user)"
    by (simp add: key_def tracked_user_def)
  from refresh_missing_key_or_delegates [of user_meta tracked_user echo_manager PyNone] k
  have 1: "refresh echo_manager user_meta tracked_user PyNone = Inr tracked_user"
    by (simp add: echo_manager_def)
  from refresh_missing_key_or_delegates [of user_meta "new_user ''''" echo_manager PyNone]
    new_user_key
  have 2: "refresh echo_manager user_meta (new_user '''') PyNone = Inr (new_user '''')"
    by (simp add: echo_manager_def)
  from k 1 new_user_key 2 show ?thesis by blast
qed

end
